theory Spec2Isabelle
  imports Main "HOL-Library.Char_ord" "HOL-Library.List_Lexorder" "HOL-Library.AList"
begin

section \<open>Python strings\<close>

text \<open>
  Source text, file names and identifiers are \<^typ>\<open>string\<close>s.  Letters, case and
  white space are those of ASCII; a character outside ASCII is carried along
  unchanged.  The keywords the audit searches for (\<open>csrg\<close>, \<open>ledger\<close>, \<open>delta\<close>,
  \<open>gate\<close>) have no letter that a character outside ASCII is lowered to.
\<close>

primrec startswith :: "string \<Rightarrow> string \<Rightarrow> bool" where
  "startswith s [] = True"
| "startswith s (p # ps) = (case s of [] \<Rightarrow> False | c # cs \<Rightarrow> c = p \<and> startswith cs ps)"

text \<open>Python's \<^verbatim>\<open>needle in hay\<close> on strings.\<close>

primrec py_in :: "string \<Rightarrow> string \<Rightarrow> bool" where
  "py_in needle [] = (needle = [])"
| "py_in needle (c # cs) = (startswith (c # cs) needle \<or> py_in needle cs)"

definition endswith :: "string \<Rightarrow> string \<Rightarrow> bool" where
  "endswith s suffix = startswith (rev s) (rev suffix)"

definition is_upper_char :: "char \<Rightarrow> bool" where
  "is_upper_char c = (65 \<le> (of_char c :: nat) \<and> (of_char c :: nat) \<le> 90)"

definition is_lower_char :: "char \<Rightarrow> bool" where
  "is_lower_char c = (97 \<le> (of_char c :: nat) \<and> (of_char c :: nat) \<le> 122)"

definition lower_char :: "char \<Rightarrow> char" where
  "lower_char c = (if is_upper_char c then char_of ((of_char c :: nat) + 32) else c)"

text \<open>\<^verbatim>\<open>str.lower()\<close>, on the letters A to Z.\<close>

definition lower :: "string \<Rightarrow> string" where
  "lower s = map lower_char s"

text \<open>
  \<^verbatim>\<open>str.isupper()\<close>: at least one cased character, and no cased character in lower
  case.
\<close>

definition isupper :: "string \<Rightarrow> bool" where
  "isupper s = ((\<exists>c \<in> set s. is_upper_char c) \<and> (\<forall>c \<in> set s. \<not> is_lower_char c))"

section \<open>Syntax trees\<close>

text \<open>
  The nodes of Python's \<^verbatim>\<open>ast\<close> module that the extractors inspect, each with the
  fields the code reads; every other kind of node is \<open>Other\<close> with its child nodes.
  Leaf nodes that no extractor matches (aliases, operators, expression contexts) are
  left out: they have no children and are never selected.
\<close>

datatype const =
    CNone
  | CBool bool
  | CInt int
  | CStr string
  | COther string

datatype node =
    Module "node list"
  | FunctionDef string "string list" "node list" nat
  | Assign "node list" node
  | Import "string list"
  | ImportFrom "string option"
  | Call node "node list" "node list" nat
  | Name string
  | Attribute node string
  | Constant const
  | BinOp node node
  | JoinedStr "node list"
  | Other "node list"

text \<open>
  \<open>FunctionDef name params children lineno\<close>: \<open>params\<close> are the names of
  \<^verbatim>\<open>node.args.args\<close>, \<open>children\<close> the child nodes in field order (the arguments
  node, the body, the decorators, the return annotation).
  \<open>Call func args keywords lineno\<close>.  \<open>COther\<close> holds the \<^verbatim>\<open>repr\<close> of a constant
  that is neither \<^verbatim>\<open>None\<close>, a boolean, an integer nor a string.
\<close>

text \<open>\<^verbatim>\<open>ast.iter_child_nodes\<close>: the child nodes in field order.\<close>

fun iter_child_nodes :: "node \<Rightarrow> node list" where
  "iter_child_nodes (Module body) = body"
| "iter_child_nodes (FunctionDef name params cs lineno) = cs"
| "iter_child_nodes (Assign targets v) = targets @ [v]"
| "iter_child_nodes (Import names) = []"
| "iter_child_nodes (ImportFrom module) = []"
| "iter_child_nodes (Call func args keywords lineno) = func # args @ keywords"
| "iter_child_nodes (Name ident) = []"
| "iter_child_nodes (Attribute v attr) = [v]"
| "iter_child_nodes (Constant c) = []"
| "iter_child_nodes (BinOp left right) = [left, right]"
| "iter_child_nodes (JoinedStr vs) = vs"
| "iter_child_nodes (Other cs) = cs"

text \<open>The number of nodes of a tree: what the traversal consumes.\<close>

fun count_nodes :: "node \<Rightarrow> nat" where
  "count_nodes (Module body) = Suc (sum_list (map count_nodes body))"
| "count_nodes (FunctionDef name params cs lineno) = Suc (sum_list (map count_nodes cs))"
| "count_nodes (Assign targets v) = Suc (sum_list (map count_nodes targets) + count_nodes v)"
| "count_nodes (Import names) = 1"
| "count_nodes (ImportFrom module) = 1"
| "count_nodes (Call func args keywords lineno) =
     Suc (count_nodes func + sum_list (map count_nodes args) + sum_list (map count_nodes keywords))"
| "count_nodes (Name ident) = 1"
| "count_nodes (Attribute v attr) = Suc (count_nodes v)"
| "count_nodes (Constant c) = 1"
| "count_nodes (BinOp left right) = Suc (count_nodes left + count_nodes right)"
| "count_nodes (JoinedStr vs) = Suc (sum_list (map count_nodes vs))"
| "count_nodes (Other cs) = Suc (sum_list (map count_nodes cs))"

lemma count_iter_child_nodes:
  "sum_list (map count_nodes (iter_child_nodes n)) < count_nodes n"
  by (cases n) simp_all

text \<open>
  \<^verbatim>\<open>ast.walk\<close>: a queue of nodes to visit; the node at the front is yielded and its
  children join the back of the queue.
\<close>

function walk_todo :: "node list \<Rightarrow> node list" where
  "walk_todo [] = []"
| "walk_todo (n # todo) = n # walk_todo (todo @ iter_child_nodes n)"
  by pat_completeness auto
termination
proof (relation "measure (\<lambda>todo. sum_list (map count_nodes todo))")
  show "wf (measure (\<lambda>todo. sum_list (map count_nodes todo)))"
    by simp
next
  fix n :: node and todo :: "node list"
  show "(todo @ iter_child_nodes n, n # todo) \<in> measure (\<lambda>todo. sum_list (map count_nodes todo))"
    using count_iter_child_nodes [of n] by simp
qed

definition walk :: "node \<Rightarrow> node list" where
  "walk n = walk_todo [n]"

section \<open>Library behaviour taken as given\<close>

text \<open>
  Exceptions are values.  Only \<open>SyntaxError\<close> and \<open>JSONDecodeError\<close> are caught by
  name in the code; the others pass through every handler except a bare
  \<^verbatim>\<open>except:\<close>.
\<close>

datatype exn =
    SyntaxError string
  | JSONDecodeError string
  | UnicodeDecodeError
  | IsADirectoryError
  | NotADirectoryError
  | FileNotFoundError
  | AttributeError
  | TypeError
  | FileExistsError
  | KeyError
  | BadZipFile
  | OtherError string

text \<open>Python values as JSON text denotes them, and as the findings hold them.\<close>

datatype pyval =
    PNone
  | PBool bool
  | PInt int
  | PFloat string
  | PStr string
  | PList "pyval list"
  | PDict "(string \<times> pyval) list"

text \<open>
  What the code calls in the standard library and this development does not define:
  decoding a file's bytes to text as \<^verbatim>\<open>open\<close> in text mode does (\<open>None\<close>: the
  bytes are not valid text), the parser of
  Python source, \<^verbatim>\<open>ast.unparse\<close> (\<open>None\<close>: the module has no such attribute, before
  Python 3.9), \<^verbatim>\<open>repr\<close> of a node, and the JSON parser.  Every theorem holds for
  any such library.
\<close>

record lib =
  decode :: "string \<Rightarrow> string option"
  ast_parse :: "string \<Rightarrow> exn + node"
  ast_unparse :: "(node \<Rightarrow> exn + string) option"
  node_repr :: "node \<Rightarrow> string"
  json_loads :: "string \<Rightarrow> exn + pyval"

text \<open>
  The two handlers of the code that name an exception: \<^verbatim>\<open>except SyntaxError as e\<close>
  and \<^verbatim>\<open>except json.JSONDecodeError as e\<close>, each with the text of \<^verbatim>\<open>str(e)\<close>.
\<close>

fun syntax_error :: "exn \<Rightarrow> string option" where
  "syntax_error (SyntaxError msg) = Some msg"
| "syntax_error e = None"

fun json_decode_error :: "exn \<Rightarrow> string option" where
  "json_decode_error (JSONDecodeError msg) = Some msg"
| "json_decode_error e = None"

section \<open>The capability extractor (boot\_capability\_probe.py)\<close>

record extractor =
  ex_source :: string
  ex_tree :: "node option"
  ex_error :: "string option"

text \<open>
  \<^verbatim>\<open>BootCapabilityExtractor.__init__\<close>: a syntax error leaves the tree absent and
  keeps the message; any other exception of the parser is not handled.
\<close>

definition BootCapabilityExtractor :: "lib \<Rightarrow> string \<Rightarrow> exn + extractor" where
  "BootCapabilityExtractor L boot_source =
     (case ast_parse L boot_source of
        Inr t \<Rightarrow> Inr \<lparr>ex_source = boot_source, ex_tree = Some t, ex_error = None\<rparr>
      | Inl e \<Rightarrow>
          (case syntax_error e of
             Some msg \<Rightarrow> Inr \<lparr>ex_source = boot_source, ex_tree = None, ex_error = Some msg\<rparr>
           | None \<Rightarrow> Inl e))"

text \<open>An entry of \<open>file_reads\<close>: a method call on a variable, or a call of \<open>open\<close>.\<close>

datatype file_read =
    VariableRead string string nat
  | OpenRead string nat

datatype function_def = FunctionInfo string "string list" nat bool

record surface =
  file_reads :: "file_read list"
  imports' :: "string list"
  path_constants :: "(string \<times> string) list"
  function_definitions :: "function_def list"
  external_calls :: "(string \<times> nat) list"
  string_literals :: "string list"
  fail_exit_codes :: "(const \<times> const) list"

datatype capabilities = ParseFailure string | Capabilities surface

text \<open>Results of the nodes in traversal order; the first exception ends the loop.\<close>

fun collect :: "(exn + 'a list) list \<Rightarrow> exn + 'a list" where
  "collect [] = Inr []"
| "collect (Inl e # rs) = Inl e"
| "collect (Inr xs # rs) = (case collect rs of Inl e \<Rightarrow> Inl e | Inr ys \<Rightarrow> Inr (xs @ ys))"

definition unparse_or_text :: "lib \<Rightarrow> node \<Rightarrow> exn + string" where
  "unparse_or_text L n =
     (case ast_unparse L of Some unparse \<Rightarrow> unparse n | None \<Rightarrow> Inr ''unparseable'')"

fun node_file_reads :: "lib \<Rightarrow> node \<Rightarrow> exn + file_read list" where
  "node_file_reads L (Call (Attribute (Name ident) attr) args keywords lineno) =
     (if attr \<in> set [''read_text'', ''read_bytes'', ''open'']
      then Inr [VariableRead attr ident lineno] else Inr [])"
| "node_file_reads L (Call (Name ident) args keywords lineno) =
     (if ident = ''open'' \<and> args \<noteq> []
      then (case unparse_or_text L (hd args) of
              Inl e \<Rightarrow> Inl e
            | Inr argument \<Rightarrow> Inr [OpenRead argument lineno])
      else Inr [])"
| "node_file_reads L n = Inr []"

definition extract_file_reads :: "lib \<Rightarrow> node \<Rightarrow> exn + file_read list" where
  "extract_file_reads L t = collect (map (node_file_reads L) (walk t))"

fun node_imports :: "node \<Rightarrow> string list" where
  "node_imports (Import names) = names"
| "node_imports (ImportFrom (Some module)) = (if module \<noteq> [] then [module] else [])"
| "node_imports n = []"

text \<open>
  \<^verbatim>\<open>sorted(set(imports))\<close>: a hash set keeps each element once and is iterated in an
  order of its own, \<open>it\<close>; the result is that iteration, sorted.
\<close>

definition extract_imports :: "(string list \<Rightarrow> string list) \<Rightarrow> node \<Rightarrow> string list" where
  "extract_imports it t = sort (it (remdups (concat (map node_imports (walk t)))))"

definition is_path_name :: "string \<Rightarrow> bool" where
  "is_path_name ident = (isupper ident \<and> py_in ''PATH'' ident \<or> py_in ''DIR'' ident)"

definition path_value :: "lib \<Rightarrow> node \<Rightarrow> string" where
  "path_value L v =
     (case ast_unparse L of
        Some unparse \<Rightarrow> (case unparse v of Inr s \<Rightarrow> s | Inl e \<Rightarrow> ''<unparseable>'')
      | None \<Rightarrow> node_repr L v)"

fun assign_target :: "lib \<Rightarrow> node \<Rightarrow> (string \<times> string) list \<Rightarrow> node \<Rightarrow> (string \<times> string) list" where
  "assign_target L v paths (Name ident) =
     (if is_path_name ident then AList.update ident (path_value L v) paths else paths)"
| "assign_target L v paths target = paths"

fun node_path_constants :: "lib \<Rightarrow> (string \<times> string) list \<Rightarrow> node \<Rightarrow> (string \<times> string) list" where
  "node_path_constants L paths (Assign targets v) = foldl (assign_target L v) paths targets"
| "node_path_constants L paths n = paths"

definition extract_path_constants :: "lib \<Rightarrow> node \<Rightarrow> (string \<times> string) list" where
  "extract_path_constants L t = foldl (node_path_constants L) [] (walk t)"

fun is_die_call :: "node \<Rightarrow> bool" where
  "is_die_call (Call (Name ident) args keywords lineno) = (ident = ''_die'')"
| "is_die_call n = False"

fun node_function_defs :: "node \<Rightarrow> function_def list" where
  "node_function_defs (FunctionDef name params cs lineno) =
     [FunctionInfo name params lineno (list_ex is_die_call (walk (FunctionDef name params cs lineno)))]"
| "node_function_defs n = []"

definition extract_function_defs :: "node \<Rightarrow> function_def list" where
  "extract_function_defs t = concat (map node_function_defs (walk t))"

fun function_name :: "function_def \<Rightarrow> string" where
  "function_name (FunctionInfo name params lineno has_die) = name"

definition stdlib :: "string list" where
  "stdlib = [''print'', ''open'', ''len'', ''sorted'', ''list'', ''dict'', ''set'', ''str'',
             ''int'', ''float'', ''isinstance'', ''hasattr'', ''getattr'']"

fun node_external_calls :: "string list \<Rightarrow> node \<Rightarrow> (string \<times> nat) list" where
  "node_external_calls defined (Call (Name func_name) args keywords lineno) =
     (if func_name \<notin> set defined \<and> func_name \<notin> set stdlib then [(func_name, lineno)] else [])"
| "node_external_calls defined n = []"

text \<open>The deduplication loop: an element is kept the first time it is seen.\<close>

fun unique_loop :: "'a list \<Rightarrow> 'a list \<Rightarrow> 'a list" where
  "unique_loop seen [] = []"
| "unique_loop seen (x # xs) =
     (if x \<in> set seen then unique_loop seen xs else x # unique_loop (x # seen) xs)"

definition extract_external_calls :: "node \<Rightarrow> (string \<times> nat) list" where
  "extract_external_calls t =
     (let defined = map function_name (extract_function_defs t)
      in unique_loop [] (concat (map (node_external_calls defined) (walk t))))"

fun node_string_literals :: "node \<Rightarrow> string list" where
  "node_string_literals (Constant (CStr s)) = [s]"
| "node_string_literals n = []"

definition extract_string_literals :: "(string list \<Rightarrow> string list) \<Rightarrow> node \<Rightarrow> string list" where
  "extract_string_literals it t = sort (it (remdups (concat (map node_string_literals (walk t)))))"

text \<open>
  Keys of the exit-code dictionary compare as Python compares them: \<^verbatim>\<open>True == 1\<close>
  and \<^verbatim>\<open>False == 0\<close>.  (A float key equal to an integer key is not modelled: such
  constants are kept by their text.)
\<close>

fun const_int :: "const \<Rightarrow> int option" where
  "const_int (CBool b) = Some (if b then 1 else 0)"
| "const_int (CInt i) = Some i"
| "const_int c = None"

definition const_eq :: "const \<Rightarrow> const \<Rightarrow> bool" where
  "const_eq a b = (a = b \<or> (const_int a \<noteq> None \<and> const_int a = const_int b))"

text \<open>\<^verbatim>\<open>d[k] = v\<close>: an equal key keeps its place and its first spelling.\<close>

fun dict_set :: "(const \<times> 'v) list \<Rightarrow> const \<Rightarrow> 'v \<Rightarrow> (const \<times> 'v) list" where
  "dict_set [] k v = [(k, v)]"
| "dict_set ((k', v') # d) k v =
     (if const_eq k' k then (k', v) # d else (k', v') # dict_set d k v)"

fun exit_message :: "node \<Rightarrow> const" where
  "exit_message (Constant msg) = msg"
| "exit_message (JoinedStr vs) = CStr ''<f-string>''"
| "exit_message n = CStr ''<dynamic>''"

fun node_exit_codes :: "(const \<times> const) list \<Rightarrow> node \<Rightarrow> (const \<times> const) list" where
  "node_exit_codes exits (Call (Name ident) (Constant code # arg1 # args) keywords lineno) =
     (if ident = ''_die'' then dict_set exits code (exit_message arg1) else exits)"
| "node_exit_codes exits n = exits"

definition extract_exit_codes :: "node \<Rightarrow> (const \<times> const) list" where
  "extract_exit_codes t = foldl node_exit_codes [] (walk t)"

text \<open>
  \<^verbatim>\<open>extract_all\<close>: the error surface when the tree is absent, else the seven
  extractions.  Only \<open>extract_file_reads\<close> can raise (an exception of
  \<^verbatim>\<open>ast.unparse\<close>), and it runs first.
\<close>

definition extract_all :: "lib \<Rightarrow> (string list \<Rightarrow> string list) \<Rightarrow> extractor \<Rightarrow> exn + capabilities" where
  "extract_all L it self =
     (case ex_tree self of
        None \<Rightarrow>
          Inr (ParseFailure (case ex_error self of Some msg \<Rightarrow> msg | None \<Rightarrow> ''Unknown parse error''))
      | Some t \<Rightarrow>
          (case extract_file_reads L t of
             Inl e \<Rightarrow> Inl e
           | Inr reads \<Rightarrow>
               Inr (Capabilities
                 \<lparr>file_reads = reads,
                  imports' = extract_imports it t,
                  path_constants = extract_path_constants L t,
                  function_definitions = extract_function_defs t,
                  external_calls = extract_external_calls t,
                  string_literals = extract_string_literals it t,
                  fail_exit_codes = extract_exit_codes t\<rparr>)))"

text \<open>
  A hash set is iterated in an order that differs from one process to the next.  An
  iteration order keeps the elements and repeats none.
\<close>

definition iteration_order :: "(string list \<Rightarrow> string list) \<Rightarrow> bool" where
  "iteration_order it = (\<forall>xs. distinct xs \<longrightarrow> distinct (it xs) \<and> set (it xs) = set xs)"

section \<open>The extracted bundle\<close>

text \<open>
  The extraction directory: a regular file holds its bytes, a directory its entries in
  the order the file system lists them.
\<close>

datatype fsnode = File string | Dir "(string \<times> fsnode) list"

type_synonym directory = "(string \<times> fsnode) list"

text \<open>\<^verbatim>\<open>(extract_dir / name).exists()\<close>\<close>

definition exists :: "directory \<Rightarrow> string \<Rightarrow> bool" where
  "exists d name = (map_of d name \<noteq> None)"

text \<open>
  \<^verbatim>\<open>Path.read_text()\<close>, and \<^verbatim>\<open>open(path)\<close> followed by reading the text: a
  directory cannot be opened, and bytes that are not text cannot be decoded.
\<close>

fun read_node :: "lib \<Rightarrow> fsnode \<Rightarrow> exn + string" where
  "read_node L (Dir es) = Inl IsADirectoryError"
| "read_node L (File bytes) =
     (case decode L bytes of None \<Rightarrow> Inl UnicodeDecodeError | Some s \<Rightarrow> Inr s)"

definition read_text :: "lib \<Rightarrow> directory \<Rightarrow> string \<Rightarrow> exn + string" where
  "read_text L d name =
     (case map_of d name of None \<Rightarrow> Inl FileNotFoundError | Some x \<Rightarrow> read_node L x)"

text \<open>
  \<^verbatim>\<open>glob\<close> with one wildcard component: the entries of the directory whose name
  matches.  The three patterns of the code: \<^verbatim>\<open>*.py\<close>, \<^verbatim>\<open>*.json\<close> and
  \<^verbatim>\<open>*gate*.py\<close>.
\<close>

definition glob :: "(string \<Rightarrow> bool) \<Rightarrow> directory \<Rightarrow> (string \<times> fsnode) list" where
  "glob matches d = filter (\<lambda>entry. matches (fst entry)) d"

definition star_py :: "string \<Rightarrow> bool" where
  "star_py name = endswith name ''.py''"

definition star_json :: "string \<Rightarrow> bool" where
  "star_json name = endswith name ''.json''"

definition star_gate_star_py :: "string \<Rightarrow> bool" where
  "star_gate_star_py name = (endswith name ''.py'' \<and> py_in ''gate'' (take (length name - 3) name))"

text \<open>
  \<^verbatim>\<open>glob("**/*.py")\<close>: the directory itself and every directory below it, parents
  before children, each searched for \<^verbatim>\<open>*.py\<close>.
\<close>

fun iterate_node :: "fsnode \<Rightarrow> directory list"
  and iterate_entries :: "directory \<Rightarrow> directory list" where
  "iterate_node (File bytes) = []"
| "iterate_node (Dir es) = es # iterate_entries es"
| "iterate_entries [] = []"
| "iterate_entries (entry # es) = iterate_node (snd entry) @ iterate_entries es"

definition rglob_py :: "directory \<Rightarrow> (string \<times> fsnode) list" where
  "rglob_py d = concat (map (glob star_py) (iterate_node (Dir d)))"

section \<open>The audit (metablooms\_audit.py)\<close>

text \<open>A finding is a dictionary; the report holds five lists of findings.\<close>

type_synonym finding = "(string \<times> pyval) list"

record AuditReport =
  verified_implementations :: "finding list"
  present_but_unwired :: "finding list"
  missing :: "finding list"
  spec_conflicts :: "finding list"
  unverifiable :: "finding list"

definition empty_report :: AuditReport where
  "empty_report = \<lparr>verified_implementations = [], present_but_unwired = [], missing = [],
     spec_conflicts = [], unverifiable = []\<rparr>"

definition add_verified :: "finding \<Rightarrow> AuditReport \<Rightarrow> AuditReport" where
  "add_verified f r = r\<lparr>verified_implementations := verified_implementations r @ [f]\<rparr>"

definition add_unwired :: "finding \<Rightarrow> AuditReport \<Rightarrow> AuditReport" where
  "add_unwired f r = r\<lparr>present_but_unwired := present_but_unwired r @ [f]\<rparr>"

definition add_missing :: "finding \<Rightarrow> AuditReport \<Rightarrow> AuditReport" where
  "add_missing f r = r\<lparr>missing := missing r @ [f]\<rparr>"

definition add_unverifiable :: "finding \<Rightarrow> AuditReport \<Rightarrow> AuditReport" where
  "add_unverifiable f r = r\<lparr>unverifiable := unverifiable r @ [f]\<rparr>"

text \<open>\<^verbatim>\<open>str(n)\<close> of a length, for the formatted evidence strings.\<close>

definition digit :: "nat \<Rightarrow> char" where
  "digit n = char_of (48 + n)"

fun str_nat :: "nat \<Rightarrow> string" where
  "str_nat n = (if n < 10 then [digit n] else str_nat (n div 10) @ [digit (n mod 10)])"

declare str_nat.simps [simp del]

definition py_len :: "'a list \<Rightarrow> pyval" where
  "py_len xs = PInt (int (length xs))"

definition str_list :: "string list \<Rightarrow> pyval" where
  "str_list xs = PList (map PStr xs)"

subsection \<open>BootAnalyzer\<close>

record analyzer =
  an_source :: string
  an_tree :: "node option"
  parse_error :: "string option"

definition BOOT :: string where
  "BOOT = ''BOOT_METABLOOMS.py''"

text \<open>
  \<^verbatim>\<open>BootAnalyzer.__init__\<close>: reading the file is not guarded; of the parser's
  exceptions only the syntax error is caught.
\<close>

definition BootAnalyzer :: "lib \<Rightarrow> directory \<Rightarrow> exn + analyzer" where
  "BootAnalyzer L d =
     (case read_text L d BOOT of
        Inl e \<Rightarrow> Inl e
      | Inr src \<Rightarrow>
          (case ast_parse L src of
             Inr t \<Rightarrow> Inr \<lparr>an_source = src, an_tree = Some t, parse_error = None\<rparr>
           | Inl e \<Rightarrow>
               (case syntax_error e of
                  Some msg \<Rightarrow> Inr \<lparr>an_source = src, an_tree = None, parse_error = Some msg\<rparr>
                | None \<Rightarrow> Inl e)))"

text \<open>\<^verbatim>\<open>BootAnalyzer.extract_imports\<close>: the list as collected, neither sorted nor deduplicated.\<close>

definition analyzer_extract_imports :: "analyzer \<Rightarrow> string list" where
  "analyzer_extract_imports self =
     (case an_tree self of None \<Rightarrow> [] | Some t \<Rightarrow> concat (map node_imports (walk t)))"

definition loads_file :: "analyzer \<Rightarrow> string \<Rightarrow> bool" where
  "loads_file self filename = py_in filename (an_source self)"

subsection \<open>The eight checks\<close>

definition check_boot_structure :: "lib \<Rightarrow> directory \<Rightarrow> AuditReport \<Rightarrow> exn + AuditReport" where
  "check_boot_structure L d r =
     (if \<not> exists d BOOT then
        Inr (add_missing [(''component'', PStr ''BOOT_METABLOOMS.py''),
                          (''reason'', PStr ''File not found in bundle'')] r)
      else if \<not> exists d ''RUN_METABLOOMS.py'' then
        Inr (add_missing [(''component'', PStr ''RUN_METABLOOMS.py''),
                          (''reason'', PStr ''File not found in bundle'')] r)
      else
        (case read_text L d BOOT of
           Inl e \<Rightarrow> Inl e
         | Inr src \<Rightarrow>
             (case ast_parse L src of
                Inr t \<Rightarrow>
                  Inr (add_verified [(''component'', PStr ''BOOT_METABLOOMS.py''),
                                     (''detail'', PStr ''File exists and is valid Python''),
                                     (''path'', PStr ''BOOT_METABLOOMS.py'')] r)
              | Inl e \<Rightarrow>
                  (case syntax_error e of
                     Some msg \<Rightarrow>
                       Inr (add_missing [(''component'', PStr ''BOOT_METABLOOMS.py''),
                                         (''reason'', PStr (''Syntax error: '' @ msg))] r)
                   | None \<Rightarrow> Inl e))))"

definition check_delta_enforcement :: "lib \<Rightarrow> directory \<Rightarrow> AuditReport \<Rightarrow> exn + AuditReport" where
  "check_delta_enforcement L d r =
     (if \<not> exists d BOOT then Inr r
      else
        (case BootAnalyzer L d of
           Inl e \<Rightarrow> Inl e
         | Inr analyzer \<Rightarrow>
             (let loads_latest = loads_file analyzer ''latest.json'';
                  loads_manifests = loads_file analyzer ''manifests'';
                  r1 = (if \<not> (loads_latest \<or> loads_manifests) then
                          add_missing
                            [(''component'', PStr ''Delta manifest loading''),
                             (''reason'', PStr ''No reference to 'latest.json' or 'manifests' in BOOT_METABLOOMS.py''),
                             (''evidence'', PStr ''Static source analysis: 0 occurrences'')] r
                        else r);
                  has_delta_hash = (py_in ''delta'' (lower (an_source analyzer))
                                    \<and> py_in ''sha256'' (an_source analyzer))
              in Inr (if \<not> has_delta_hash then
                        add_missing
                          [(''component'', PStr ''Delta SHA256 verification''),
                           (''reason'', PStr ''No evidence of delta hash verification in boot''),
                           (''evidence'', PStr ''Source contains doctrine hash verification only'')] r1
                      else r1))))"

definition check_gate_wiring :: "lib \<Rightarrow> directory \<Rightarrow> AuditReport \<Rightarrow> exn + AuditReport" where
  "check_gate_wiring L d r =
     (let gate_files = map fst (glob star_gate_star_py d) in
      if gate_files = [] then
        Inr (add_missing [(''component'', PStr ''Gate infrastructure''),
                          (''reason'', PStr ''No gate files found'')] r)
      else if \<not> exists d BOOT then Inr r
      else
        (case BootAnalyzer L d of
           Inl e \<Rightarrow> Inl e
         | Inr analyzer \<Rightarrow>
             (let gate_imports = filter (\<lambda>imp. py_in ''gate'' (lower imp))
                                   (analyzer_extract_imports analyzer)
              in if gate_imports = [] then
                   Inr (add_unwired
                     [(''component'', PStr ''Gate files''),
                      (''count'', py_len gate_files),
                      (''files'', str_list (take 10 gate_files)),
                      (''reason'', PStr ''Gate files exist but are not imported by BOOT_METABLOOMS.py''),
                      (''evidence'', PStr (''Found '' @ str_nat (length gate_files)
                                            @ '' gate files, 0 gate imports in boot''))] r)
                 else
                   Inr (add_verified [(''component'', PStr ''Gate imports''),
                                      (''imports'', str_list gate_imports)] r))))"

text \<open>
  The loop over the Python files of the root: a file that cannot be read is skipped
  (\<^verbatim>\<open>except: continue\<close>); the loop stops at the first file that mentions validation.
\<close>

definition mentions_validation :: "lib \<Rightarrow> fsnode \<Rightarrow> bool" where
  "mentions_validation L x =
     (case read_node L x of
        Inl e \<Rightarrow> False
      | Inr src \<Rightarrow> py_in ''jsonschema'' src \<or> py_in ''validate('' src)"

definition check_schema_usage :: "lib \<Rightarrow> directory \<Rightarrow> AuditReport \<Rightarrow> AuditReport" where
  "check_schema_usage L d r =
     (case map_of d ''schemas'' of
        None \<Rightarrow> add_missing [(''component'', PStr ''Schema directory''),
                              (''reason'', PStr ''schemas/ directory not found'')] r
      | Some schema_dir \<Rightarrow>
          (let schema_files = (case schema_dir of
                                 Dir es \<Rightarrow> map fst (glob star_json es)
                               | File bytes \<Rightarrow> []);
               validates_schema = list_ex (\<lambda>entry. mentions_validation L (snd entry)) (glob star_py d)
           in if schema_files \<noteq> [] \<and> \<not> validates_schema then
                add_unwired
                  [(''component'', PStr ''JSON schemas''),
                   (''count'', py_len schema_files),
                   (''files'', str_list schema_files),
                   (''reason'', PStr ''Schema files exist but no validation code found''),
                   (''evidence'', PStr (str_nat (length schema_files) @ '' schemas, 0 jsonschema imports''))] r
              else r))"

subsection \<open>The ledger path pattern\<close>

text \<open>
  \<^verbatim>\<open>re.search(r'LEDGER_PATH\s*=\s*.+?["\'](.+?)["\']', source)\<close>, as the backtracking
  matcher runs it: the leftmost start wins; a greedy \<^verbatim>\<open>\s*\<close> tries the longest run
  of white space first and gives characters back one at a time; a lazy \<^verbatim>\<open>.+?\<close> tries
  one character first and takes one more at a time; \<^verbatim>\<open>.\<close> is any character but the
  newline.

  The characters that \<^verbatim>\<open>\s\<close> matches in a pattern on \<^verbatim>\<open>str\<close>, each as its code
  units: the ASCII white space (U+0009 to U+000D, U+001C to U+0020), U+0085, U+00A0,
  U+1680, U+2000 to U+200A, U+2028, U+2029, U+202F, U+205F and U+3000.
\<close>

definition white_space :: "string list" where
  "white_space =
     [[CHR 0x09], [CHR 0x0A], [CHR 0x0B], [CHR 0x0C], [CHR 0x0D],
      [CHR 0x1C], [CHR 0x1D], [CHR 0x1E], [CHR 0x1F], [CHR 0x20],
      [CHR 0xC2, CHR 0x85], [CHR 0xC2, CHR 0xA0],
      [CHR 0xE1, CHR 0x9A, CHR 0x80],
      [CHR 0xE2, CHR 0x80, CHR 0x80], [CHR 0xE2, CHR 0x80, CHR 0x81],
      [CHR 0xE2, CHR 0x80, CHR 0x82], [CHR 0xE2, CHR 0x80, CHR 0x83],
      [CHR 0xE2, CHR 0x80, CHR 0x84], [CHR 0xE2, CHR 0x80, CHR 0x85],
      [CHR 0xE2, CHR 0x80, CHR 0x86], [CHR 0xE2, CHR 0x80, CHR 0x87],
      [CHR 0xE2, CHR 0x80, CHR 0x88], [CHR 0xE2, CHR 0x80, CHR 0x89],
      [CHR 0xE2, CHR 0x80, CHR 0x8A],
      [CHR 0xE2, CHR 0x80, CHR 0xA8], [CHR 0xE2, CHR 0x80, CHR 0xA9],
      [CHR 0xE2, CHR 0x80, CHR 0xAF], [CHR 0xE2, CHR 0x81, CHR 0x9F],
      [CHR 0xE3, CHR 0x80, CHR 0x80]]"

definition is_space :: "string \<Rightarrow> bool" where
  "is_space w = (w \<in> set white_space)"

definition is_quote :: "char \<Rightarrow> bool" where
  "is_quote c = ((of_char c :: nat) = 34 \<or> (of_char c :: nat) = 39)"

definition is_newline :: "char \<Rightarrow> bool" where
  "is_newline c = ((of_char c :: nat) = 10)"

fun first_match :: "('a \<Rightarrow> 'b option) \<Rightarrow> 'a list \<Rightarrow> 'b option" where
  "first_match f [] = None"
| "first_match f (x # xs) = (case f x of Some y \<Rightarrow> Some y | None \<Rightarrow> first_match f xs)"

text \<open>One white-space character taken from the front of the input, if there is one.\<close>

definition strip_space :: "string \<Rightarrow> string option" where
  "strip_space s =
     first_match (\<lambda>w. if startswith s w then Some (drop (length w) s) else None) white_space"

lemma first_match_Some: "first_match f xs = Some y \<Longrightarrow> \<exists>x \<in> set xs. f x = Some y"
  by (induction xs) (auto split: option.splits)

lemma startswith_length: "startswith s p \<Longrightarrow> length p \<le> length s"
  by (induction p arbitrary: s) (auto split: list.splits)

lemma strip_space_shorter: "strip_space s = Some rest \<Longrightarrow> length rest < length s"
proof -
  assume "strip_space s = Some rest"
  then obtain w where w: "w \<in> set white_space" and "startswith s w"
    and rest: "rest = drop (length w) s"
    unfolding strip_space_def by (auto dest!: first_match_Some split: if_splits)
  from this(2) have "length w \<le> length s" by (rule startswith_length)
  moreover from w have "w \<noteq> []" by (auto simp: white_space_def)
  ultimately show ?thesis using rest by (cases w) auto
qed

text \<open>What is left of the input after \<^verbatim>\<open>\s*\<close>, in the order the matcher tries.\<close>

function spaces_greedy :: "string \<Rightarrow> string list" where
  "spaces_greedy s =
     (case strip_space s of None \<Rightarrow> [s] | Some rest \<Rightarrow> spaces_greedy rest @ [s])"
  by pat_completeness auto
termination
  by (relation "measure length") (auto dest: strip_space_shorter)

declare spaces_greedy.simps [simp del]

text \<open>
  \<^verbatim>\<open>.+?["\']\<close>: the ways to match it at the start of the input, shortest first, each
  with the text matched by \<^verbatim>\<open>.+?\<close> and the input left after the quote.
\<close>

fun lazy_then_quote :: "string \<Rightarrow> string \<Rightarrow> (string \<times> string) list" where
  "lazy_then_quote taken [] = []"
| "lazy_then_quote taken [c] = []"
| "lazy_then_quote taken (c # q # s) =
     (if is_newline c then []
      else (if is_quote q then [(taken @ [c], s)] else []) @ lazy_then_quote (taken @ [c]) (q # s))"

text \<open>\<^verbatim>\<open>(.+?)["\']\<close> ends the pattern: its first way to match gives the group.\<close>

definition quoted_group :: "string \<Rightarrow> string option" where
  "quoted_group s = (case lazy_then_quote [] s of [] \<Rightarrow> None | m # ms \<Rightarrow> Some (fst m))"

definition after_equals :: "string \<Rightarrow> string option" where
  "after_equals s =
     first_match (\<lambda>s1. first_match (\<lambda>m. quoted_group (snd m)) (lazy_then_quote [] s1))
       (spaces_greedy s)"

fun equals_then :: "string \<Rightarrow> string option" where
  "equals_then [] = None"
| "equals_then (c # s) = (if c = CHR ''='' then after_equals s else None)"

definition match_at :: "string \<Rightarrow> string option" where
  "match_at s =
     (if startswith s ''LEDGER_PATH''
      then first_match equals_then (spaces_greedy (drop (length ''LEDGER_PATH'') s))
      else None)"

fun suffixes_from_left :: "string \<Rightarrow> string list" where
  "suffixes_from_left [] = [[]]"
| "suffixes_from_left (c # s) = (c # s) # suffixes_from_left s"

text \<open>The group of the match, or \<open>None\<close> when the pattern matches nowhere.\<close>

definition ledger_path_search :: "string \<Rightarrow> string option" where
  "ledger_path_search source = first_match match_at (suffixes_from_left source)"

subsection \<open>The remaining checks\<close>

text \<open>The append-mode literals \<^verbatim>\<open>"a"\<close> and \<^verbatim>\<open>'a'\<close>.\<close>

definition append_mode_double :: string where
  "append_mode_double = [CHR 0x22, CHR ''a'', CHR 0x22]"

definition append_mode_single :: string where
  "append_mode_single = [CHR 0x27, CHR ''a'', CHR 0x27]"

definition check_ledger_integration :: "lib \<Rightarrow> directory \<Rightarrow> AuditReport \<Rightarrow> exn + AuditReport" where
  "check_ledger_integration L d r =
     (if \<not> exists d BOOT then Inr r
      else
        (case read_text L d BOOT of
           Inl e \<Rightarrow> Inl e
         | Inr src \<Rightarrow>
             (let has_ledger_write = (py_in ''ledger'' (lower src)
                                      \<and> (py_in ''open('' src \<or> py_in ''.write('' src));
                  has_append_mode = (py_in append_mode_double src \<or> py_in append_mode_single src)
              in if has_ledger_write \<and> has_append_mode then
                   (let ledger_path = (case ledger_path_search src of
                                         Some g \<Rightarrow> g
                                       | None \<Rightarrow> ''governance/epistemic_ledger.ndjson'')
                    in Inr (add_verified
                         [(''component'', PStr ''Ledger integration''),
                          (''detail'', PStr ''Boot writes to ledger in append mode''),
                          (''path'', PStr ledger_path),
                          (''evidence'', PStr ''Source contains ledger open in append mode'')] r))
                 else
                   Inr (add_missing [(''component'', PStr ''Ledger integration''),
                                     (''reason'', PStr ''No evidence of ledger writes in boot'')] r))))"

text \<open>
  \<^verbatim>\<open>with open(path) as f: json.load(f)\<close>: opening and decoding are not guarded, the
  JSON parser's exception is the library's to raise.
\<close>

definition json_load :: "lib \<Rightarrow> fsnode \<Rightarrow> exn + pyval" where
  "json_load L x = (case read_node L x of Inl e \<Rightarrow> Inl e | Inr s \<Rightarrow> json_loads L s)"

text \<open>\<^verbatim>\<open>index_file.stat().st_size\<close>\<close>

fun st_size :: "fsnode \<Rightarrow> nat" where
  "st_size (File bytes) = length bytes"
| "st_size (Dir es) = 0"

text \<open>\<^verbatim>\<open>list(v.keys())\<close>: only a dictionary has keys.\<close>

fun py_keys :: "pyval \<Rightarrow> exn + pyval" where
  "py_keys (PDict kvs) = Inr (PList (map (\<lambda>kv. PStr (fst kv)) kvs))"
| "py_keys v = Inl AttributeError"

definition check_index_usage :: "lib \<Rightarrow> directory \<Rightarrow> AuditReport \<Rightarrow> exn + AuditReport" where
  "check_index_usage L d r =
     (case map_of d ''RUNTIME_INDEX.json'' of
        None \<Rightarrow> Inr (add_missing [(''component'', PStr ''RUNTIME_INDEX.json''),
                                   (''reason'', PStr ''File not found in bundle'')] r)
      | Some index_file \<Rightarrow>
          (case json_load L index_file of
             Inl e \<Rightarrow>
               (case json_decode_error e of
                  Some msg \<Rightarrow>
                    Inr (add_missing [(''component'', PStr ''RUNTIME_INDEX.json''),
                                      (''reason'', PStr (''Invalid JSON: '' @ msg))] r)
                | None \<Rightarrow> Inl e)
           | Inr index_data \<Rightarrow>
               (case py_keys index_data of
                  Inl e \<Rightarrow> Inl e
                | Inr top_level_keys \<Rightarrow>
                    Inr (add_unwired
                      [(''component'', PStr ''RUNTIME_INDEX.json''),
                       (''size_bytes'', PInt (int (st_size index_file))),
                       (''top_level_keys'', top_level_keys),
                       (''reason'', PStr ''Index exists but is not referenced by BOOT_METABLOOMS.py''),
                       (''evidence'', PStr ''File exists, not loaded by boot'')] r))))"

text \<open>
  The loop over all Python files of the bundle: a file that cannot be read is skipped;
  the name of a file that mentions the keyword is kept.
\<close>

definition mentions_csrg :: "lib \<Rightarrow> fsnode \<Rightarrow> bool" where
  "mentions_csrg L x =
     (case read_node L x of Inl e \<Rightarrow> False | Inr src \<Rightarrow> py_in ''csrg'' (lower src))"

definition check_csrg_presence :: "lib \<Rightarrow> directory \<Rightarrow> AuditReport \<Rightarrow> AuditReport" where
  "check_csrg_presence L d r =
     (let py_files = rglob_py d;
          csrg_files = map fst (filter (\<lambda>entry. mentions_csrg L (snd entry)) py_files)
      in if csrg_files = [] then
           add_missing
             [(''component'', PStr ''CSRG gate''),
              (''reason'', PStr (''No files contain 'csrg' or 'CSRG'' @ [CHR 0x27])),
              (''evidence'', PStr (''Searched '' @ str_nat (length py_files) @ '' Python files, 0 matches''))] r
         else
           add_unverifiable
             [(''component'', PStr ''CSRG gate''),
              (''reason'', PStr ''Files mention CSRG but wiring unclear without execution''),
              (''files'', str_list csrg_files)] r)"

text \<open>\<^verbatim>\<open>manifest_data.get("preflight", [])\<close>: only a dictionary has \<^verbatim>\<open>get\<close>.\<close>

fun py_get_preflight :: "pyval \<Rightarrow> exn + pyval" where
  "py_get_preflight (PDict kvs) =
     Inr (case map_of kvs ''preflight'' of Some v \<Rightarrow> v | None \<Rightarrow> PList [])"
| "py_get_preflight v = Inl AttributeError"

text \<open>\<^verbatim>\<open>len(v)\<close>: strings, lists and dictionaries have a length.\<close>

fun py_len_of :: "pyval \<Rightarrow> exn + pyval" where
  "py_len_of (PStr s) = Inr (py_len s)"
| "py_len_of (PList vs) = Inr (py_len vs)"
| "py_len_of (PDict kvs) = Inr (py_len kvs)"
| "py_len_of v = Inl TypeError"

definition check_manifest_loading :: "lib \<Rightarrow> directory \<Rightarrow> AuditReport \<Rightarrow> exn + AuditReport" where
  "check_manifest_loading L d r =
     (case map_of d ''boot_manifest.json'' of
        None \<Rightarrow> Inr (add_missing [(''component'', PStr ''boot_manifest.json''),
                                   (''reason'', PStr ''File not found in bundle root'')] r)
      | Some manifest_file \<Rightarrow>
          (case json_load L manifest_file of
             Inl e \<Rightarrow>
               (case json_decode_error e of
                  Some msg \<Rightarrow>
                    Inr (add_missing [(''component'', PStr ''boot_manifest.json''),
                                      (''reason'', PStr (''Invalid JSON: '' @ msg))] r)
                | None \<Rightarrow> Inl e)
           | Inr manifest_data \<Rightarrow>
               (case py_get_preflight manifest_data of
                  Inl e \<Rightarrow> Inl e
                | Inr preflight \<Rightarrow>
                    (if \<not> exists d BOOT then Inr r
                     else
                       (case BootAnalyzer L d of
                          Inl e \<Rightarrow> Inl e
                        | Inr analyzer \<Rightarrow>
                            (if \<not> loads_file analyzer ''boot_manifest.json'' then
                               (case py_len_of preflight of
                                  Inl e \<Rightarrow> Inl e
                                | Inr preflight_count \<Rightarrow>
                                    Inr (add_unwired
                                      [(''component'', PStr ''boot_manifest.json''),
                                       (''preflight_count'', preflight_count),
                                       (''preflight_gates'', preflight),
                                       (''reason'', PStr ''Manifest exists with preflight gates, but BOOT_METABLOOMS.py never loads it''),
                                       (''evidence'', PStr (''Source analysis: 0 references to 'boot_manifest'' @ [CHR 0x27]))] r))
                             else
                               Inr (add_verified
                                 [(''component'', PStr ''boot_manifest.json loading''),
                                  (''detail'', PStr ''Boot references manifest file'')] r)))))))"

subsection \<open>Extraction of the archive\<close>

text \<open>
  The archive: not readable as a ZIP file at all, or its members in order, each a
  file name and its data.  \<^verbatim>\<open>ZipFile.extractall\<close> belongs to Python's standard
  library; what follows is its member loop as the library's \<^verbatim>\<open>_extract_member\<close>
  runs it on a POSIX system, into the fresh temporary directory.
\<close>

datatype zipfile = NotAnArchive | Archive "(string \<times> string) list"

text \<open>\<^verbatim>\<open>str.split('/')\<close>\<close>

fun split_slash :: "string \<Rightarrow> string list" where
  "split_slash [] = [[]]"
| "split_slash (c # s) =
     (if c = CHR ''/'' then [] # split_slash s
      else (case split_slash s of [] \<Rightarrow> [[c]] | p # ps \<Rightarrow> (c # p) # ps))"

text \<open>
  The member's name as a path below the target: empty components, \<^verbatim>\<open>.\<close> and
  \<^verbatim>\<open>..\<close> are dropped.
\<close>

definition invalid_path_parts :: "string list" where
  "invalid_path_parts = ['''', ''.'', ''..'']"

definition arcname :: "string \<Rightarrow> string list" where
  "arcname filename = filter (\<lambda>x. x \<notin> set invalid_path_parts) (split_slash filename)"

definition is_dir :: "string \<Rightarrow> bool" where
  "is_dir filename = endswith filename ''/''"

text \<open>\<^verbatim>\<open>getinfo\<close>: of two members with one name, the later one.\<close>

definition getinfo :: "(string \<times> string) list \<Rightarrow> string \<Rightarrow> string option" where
  "getinfo members name = map_of (rev members) name"

text \<open>
  Creating the upper directories and then the directory, or writing the file: a file
  in the place of a directory, or a directory in the place of the file, is an error of
  the operating system.
\<close>

fun write_at :: "string list \<Rightarrow> fsnode \<Rightarrow> directory \<Rightarrow> exn + directory" where
  "write_at [] new d = Inl IsADirectoryError"
| "write_at [name] new d =
     (case map_of d name of
        None \<Rightarrow> Inr (d @ [(name, new)])
      | Some (File old) \<Rightarrow>
          (case new of File bytes \<Rightarrow> Inr (AList.update name new d) | Dir es \<Rightarrow> Inl FileExistsError)
      | Some (Dir old) \<Rightarrow>
          (case new of File bytes \<Rightarrow> Inl IsADirectoryError | Dir es \<Rightarrow> Inr d))"
| "write_at (name # rest) new d =
     (case map_of d name of
        None \<Rightarrow>
          (case write_at rest new [] of
             Inl e \<Rightarrow> Inl e
           | Inr sub \<Rightarrow> Inr (d @ [(name, Dir sub)]))
      | Some (File old) \<Rightarrow> Inl NotADirectoryError
      | Some (Dir old) \<Rightarrow>
          (case write_at rest new old of
             Inl e \<Rightarrow> Inl e
           | Inr sub \<Rightarrow> Inr (AList.update name (Dir sub) d)))"

definition extract_member :: "(string \<times> string) list \<Rightarrow> directory \<Rightarrow> string \<Rightarrow> exn + directory" where
  "extract_member members d filename =
     (let parts = arcname filename in
      if is_dir filename then (if parts = [] then Inr d else write_at parts (Dir []) d)
      else
        (case getinfo members filename of
           None \<Rightarrow> Inl KeyError
         | Some data \<Rightarrow> if parts = [] then Inl IsADirectoryError else write_at parts (File data) d))"

fun extract_loop :: "(string \<times> string) list \<Rightarrow> string list \<Rightarrow> directory \<Rightarrow> exn + directory" where
  "extract_loop members [] d = Inr d"
| "extract_loop members (name # names) d =
     (case extract_member members d name of
        Inl e \<Rightarrow> Inl e
      | Inr d' \<Rightarrow> extract_loop members names d')"

definition extractall :: "(string \<times> string) list \<Rightarrow> exn + directory" where
  "extractall members = extract_loop members (map fst members) []"

subsection \<open>The run\<close>

definition then_check :: "exn + 'a \<Rightarrow> ('a \<Rightarrow> exn + 'b) \<Rightarrow> exn + 'b" where
  "then_check result check = (case result of Inl e \<Rightarrow> Inl e | Inr r \<Rightarrow> check r)"

text \<open>The eight checks in the order of \<^verbatim>\<open>run\<close>; an exception of one ends the run.\<close>

definition run_checks :: "lib \<Rightarrow> directory \<Rightarrow> exn + AuditReport" where
  "run_checks L d =
     then_check (then_check (then_check (then_check (then_check (then_check (then_check
       (check_boot_structure L d empty_report)
       (check_delta_enforcement L d))
       (check_gate_wiring L d))
       (\<lambda>r. Inr (check_schema_usage L d r)))
       (check_ledger_integration L d))
       (check_index_usage L d))
       (\<lambda>r. Inr (check_csrg_presence L d r)))
       (check_manifest_loading L d)"

definition run :: "lib \<Rightarrow> zipfile \<Rightarrow> exn + AuditReport" where
  "run L b =
     (case b of
        NotAnArchive \<Rightarrow> Inl BadZipFile
      | Archive members \<Rightarrow>
          (case extractall members of
             Inl e \<Rightarrow> Inl e
           | Inr d \<Rightarrow> run_checks L d))"

definition audit_bundle :: "lib \<Rightarrow> zipfile \<Rightarrow> exn + (string \<times> finding list) list" where
  "audit_bundle L b =
     (case run L b of
        Inl e \<Rightarrow> Inl e
      | Inr report \<Rightarrow>
          Inr [(''verified_implementations'', verified_implementations report),
               (''present_but_unwired'', present_but_unwired report),
               (''missing'', missing report),
               (''spec_conflicts'', spec_conflicts report),
               (''unverifiable_with_given_tools'', unverifiable report)])"

section \<open>Notions used to state the properties\<close>

text \<open>A call returns when it raises nothing.\<close>

fun returns :: "exn + 'a \<Rightarrow> bool" where
  "returns (Inr x) = True"
| "returns (Inl e) = False"

text \<open>All findings of a report, and the \<open>component\<close> a finding names.\<close>

definition findings :: "AuditReport \<Rightarrow> finding list" where
  "findings r = verified_implementations r @ present_but_unwired r @ missing r
                @ spec_conflicts r @ unverifiable r"

definition component :: "finding \<Rightarrow> pyval option" where
  "component f = map_of f ''component''"

text \<open>A finding that is not about the boot file.\<close>

definition not_about_boot :: "finding \<Rightarrow> bool" where
  "not_about_boot f = (component f \<noteq> Some (PStr ''BOOT_METABLOOMS.py''))"

fun is_dict :: "pyval \<Rightarrow> bool" where
  "is_dict (PDict kvs) = True"
| "is_dict v = False"

text \<open>
  An entry of the bundle, at any depth: an entry of the directory, or an entry of a
  directory below it.
\<close>

inductive in_tree :: "directory \<Rightarrow> string \<times> fsnode \<Rightarrow> bool" where
  here: "entry \<in> set d \<Longrightarrow> in_tree d entry"
| below: "(name, Dir sub) \<in> set d \<Longrightarrow> in_tree sub entry \<Longrightarrow> in_tree d entry"

text \<open>
  A keyword appears in a text without regard to case when some spelling of it, equal
  to the keyword after lowering, is a substring of the text.
\<close>

definition mentions_caseless :: "string \<Rightarrow> string \<Rightarrow> bool" where
  "mentions_caseless keyword src = (\<exists>w. py_in w src \<and> lower w = keyword)"

text \<open>
  A source file that mentions CSRG: an entry named \<^verbatim>\<open>*.py\<close> that is a regular file
  whose text can be read and has the keyword in it, in any case.
\<close>

definition csrg_source :: "lib \<Rightarrow> string \<times> fsnode \<Rightarrow> bool" where
  "csrg_source L entry =
     (endswith (fst entry) ''.py''
      \<and> (\<exists>bytes src. snd entry = File bytes \<and> decode L bytes = Some src
            \<and> mentions_caseless ''csrg'' src))"

text \<open>
  What the run needs of a bundle to return.  The boot file, if there is one, is a
  regular file whose bytes are text, and the parser returns a tree or a syntax error.
\<close>

definition boot_analyzable :: "lib \<Rightarrow> directory \<Rightarrow> bool" where
  "boot_analyzable L d = (if exists d BOOT then returns (BootAnalyzer L d) else True)"

text \<open>
  A JSON file of the bundle's root, if there is one, is a regular file whose bytes are
  text, and the text is not valid JSON or is a JSON object.
\<close>

definition index_loadable :: "lib \<Rightarrow> directory \<Rightarrow> bool" where
  "index_loadable L d =
     (case map_of d ''RUNTIME_INDEX.json'' of
        None \<Rightarrow> True
      | Some x \<Rightarrow>
          (case json_load L x of
             Inl e \<Rightarrow> json_decode_error e \<noteq> None
           | Inr v \<Rightarrow> is_dict v))"

fun has_len :: "pyval \<Rightarrow> bool" where
  "has_len (PStr s) = True"
| "has_len (PList vs) = True"
| "has_len (PDict kvs) = True"
| "has_len v = False"

text \<open>
  For the manifest moreover: its \<open>preflight\<close> value has a length, unless there is no
  boot file to compare with or the boot file mentions the manifest.
\<close>

definition manifest_loadable :: "lib \<Rightarrow> directory \<Rightarrow> bool" where
  "manifest_loadable L d =
     (case map_of d ''boot_manifest.json'' of
        None \<Rightarrow> True
      | Some x \<Rightarrow>
          (case json_load L x of
             Inl e \<Rightarrow> json_decode_error e \<noteq> None
           | Inr v \<Rightarrow>
               (case py_get_preflight v of
                  Inl e \<Rightarrow> False
                | Inr preflight \<Rightarrow>
                    (case read_text L d BOOT of
                       Inl e \<Rightarrow> True
                     | Inr src \<Rightarrow> py_in ''boot_manifest.json'' src \<or> has_len preflight))))"

text \<open>
  A name that stays where it is put: not empty, not \<^verbatim>\<open>.\<close> or \<^verbatim>\<open>..\<close>, and without a
  separator.
\<close>

definition safe_name :: "string \<Rightarrow> bool" where
  "safe_name name = (name \<notin> set invalid_path_parts \<and> CHR ''/'' \<notin> set name)"

fun safe_node :: "fsnode \<Rightarrow> bool"
  and safe_entries :: "directory \<Rightarrow> bool" where
  "safe_node (File bytes) = True"
| "safe_node (Dir es) = safe_entries es"
| "safe_entries [] = True"
| "safe_entries (entry # es) = (safe_name (fst entry) \<and> safe_node (snd entry) \<and> safe_entries es)"

text \<open>
  The ledger path pattern, read as a pattern and not as a procedure: a run of white
  space, a text matched by \<^verbatim>\<open>.+\<close> (not empty, without a newline), and an occurrence
  of the whole pattern in a text with \<open>g\<close> as its group.
\<close>

inductive white :: "string \<Rightarrow> bool" where
  none: "white []"
| more: "is_space w \<Longrightarrow> white s \<Longrightarrow> white (w @ s)"

definition dot_plus :: "string \<Rightarrow> bool" where
  "dot_plus x = (x \<noteq> [] \<and> (\<forall>c \<in> set x. \<not> is_newline c))"

definition pattern_occurs :: "string \<Rightarrow> string \<Rightarrow> bool" where
  "pattern_occurs src g =
     (\<exists>pre s1 s2 x q1 q2 rest.
        src = pre @ ''LEDGER_PATH'' @ s1 @ ''='' @ s2 @ x @ [q1] @ g @ [q2] @ rest
        \<and> white s1 \<and> white s2 \<and> dot_plus x \<and> is_quote q1 \<and> dot_plus g \<and> is_quote q2)"

text \<open>
  The evidence of a ledger write in a boot text: the word \<open>ledger\<close> in any case
  together with \<^verbatim>\<open>open(\<close> or \<^verbatim>\<open>.write(\<close>, and an append-mode literal.
\<close>

definition ledger_evidence :: "string \<Rightarrow> bool" where
  "ledger_evidence src =
     ((mentions_caseless ''ledger'' src \<and> (py_in ''open('' src \<or> py_in ''.write('' src))
      \<and> (py_in append_mode_double src \<or> py_in append_mode_single src))"

section \<open>A small library and bundle for the concrete runs\<close>

text \<open>
  A boot file that imports a gate module, assigns the ledger path, defines a function
  with a fail-closed exit, and opens the ledger in append mode:
  \<^verbatim>\<open>
  import sys, gate_csrg
  from pathlib import Path
  LEDGER_PATH = ROOT / "governance/ledger.ndjson"
  def boot(root):
      _die(3, 'bad')

  boot(ROOT)
  open(LEDGER_PATH, 'a')
  \<close>
  and its syntax tree.
\<close>

definition demo_boot :: string where
  "demo_boot =
     ''import sys, gate_csrg'' @ [CHR 0x0A]
     @ ''from pathlib import Path'' @ [CHR 0x0A]
     @ ''LEDGER_PATH = ROOT / '' @ [CHR 0x22] @ ''governance/ledger.ndjson'' @ [CHR 0x22] @ [CHR 0x0A]
     @ ''def boot(root):'' @ [CHR 0x0A]
     @ ''    _die(3, '' @ [CHR 0x27] @ ''bad'' @ [CHR 0x27] @ '')'' @ [CHR 0x0A]
     @ [CHR 0x0A]
     @ ''boot(ROOT)'' @ [CHR 0x0A]
     @ ''open(LEDGER_PATH, '' @ [CHR 0x27, CHR ''a'', CHR 0x27] @ '')'' @ [CHR 0x0A]"

definition demo_boot_tree :: node where
  "demo_boot_tree = Module
     [Import [''sys'', ''gate_csrg''], ImportFrom (Some ''pathlib''),
      Assign [Name ''LEDGER_PATH'']
        (BinOp (Name ''ROOT'') (Constant (CStr ''governance/ledger.ndjson''))),
      FunctionDef ''boot'' [''root'']
        [Other [], Other [Call (Name ''_die'') [Constant (CInt 3), Constant (CStr ''bad'')] [] 5]] 4,
      Other [Call (Name ''boot'') [Name ''ROOT''] [] 7],
      Other [Call (Name ''open'') [Name ''LEDGER_PATH'', Constant (CStr ''a'')] [] 8]]"

text \<open>The manifest text \<^verbatim>\<open>{"entrypoint": "RUN_X.py"}\<close>.\<close>

definition entrypoint_manifest :: string where
  "entrypoint_manifest =
     ''{'' @ [CHR 0x22] @ ''entrypoint'' @ [CHR 0x22] @ '': '' @ [CHR 0x22] @ ''RUN_X.py'' @ [CHR 0x22] @ ''}''"

text \<open>
  A library that knows the texts used below: every byte string is text, the parser
  knows the boot file above, \<^verbatim>\<open>import sys\<close> and the empty file, the JSON reader knows
  \<^verbatim>\<open>[]\<close>, \<^verbatim>\<open>{}\<close> and the manifest above; any other text is rejected.
\<close>

definition demo_lib :: lib where
  "demo_lib =
     \<lparr>decode = Some,
      ast_parse = (\<lambda>s. if s = demo_boot then Inr demo_boot_tree
                        else if s = ''import sys'' then Inr (Module [Import [''sys'']])
                        else if s = [] then Inr (Module [])
                        else Inl (SyntaxError ''invalid syntax'')),
      ast_unparse = Some (\<lambda>n. Inr ''<expr>''),
      node_repr = (\<lambda>n. ''<ast node>''),
      json_loads = (\<lambda>s. if s = ''[]'' then Inr (PList [])
                         else if s = ''{}'' then Inr (PDict [])
                         else if s = entrypoint_manifest
                           then Inr (PDict [(''entrypoint'', PStr ''RUN_X.py'')])
                         else Inl (JSONDecodeError ''Expecting value''))\<rparr>"

text \<open>
  A bundle with the boot file, the run file and a manifest that declares the entry
  point \<^verbatim>\<open>RUN_X.py\<close>, which the bundle does not hold.
\<close>

definition manifest_bundle :: directory where
  "manifest_bundle =
     [(''BOOT_METABLOOMS.py'', File demo_boot),
      (''RUN_METABLOOMS.py'', File []),
      (''boot_manifest.json'', File entrypoint_manifest)]"

text \<open>A bundle without the boot file: a gate file and an empty manifest.\<close>

definition no_boot_bundle :: directory where
  "no_boot_bundle = [(''run_gate.py'', File []), (''boot_manifest.json'', File ''{}'')]"

text \<open>A bundle that holds the boot file and nothing else.\<close>

definition boot_only_bundle :: directory where
  "boot_only_bundle = [(''BOOT_METABLOOMS.py'', File ''import sys'')]"

text \<open>
  A bundle with Python files at two levels, one text file, and a directory whose name
  ends in \<^verbatim>\<open>.py\<close>.
\<close>

definition csrg_bundle :: directory where
  "csrg_bundle =
     [(''a.py'', File ''x = CSRG()''),
      (''sub'', Dir [(''b.py'', File ''import csrg''), (''c.txt'', File ''csrg''),
                     (''e.py'', File ''pass'')]),
      (''d.py'', Dir [])]"

text \<open>
  A boot file that spells the ledger in capitals only:
  \<^verbatim>\<open>LEDGER_PATH = ROOT / "governance/log.ndjson"\<close>, \<^verbatim>\<open>open(LEDGER_PATH, 'a')\<close>;
  and a line with a no-break space (U+00A0) before the equals sign:
  \<^verbatim>\<open>LEDGER_PATH = ROOT / 'led.ndjson'\<close>.
\<close>

definition capital_boot :: string where
  "capital_boot =
     ''LEDGER_PATH = ROOT / '' @ [CHR 0x22] @ ''governance/log.ndjson'' @ [CHR 0x22] @ [CHR 0x0A]
     @ ''open(LEDGER_PATH, '' @ [CHR 0x27, CHR ''a'', CHR 0x27] @ '')'' @ [CHR 0x0A]"

definition no_break_line :: string where
  "no_break_line =
     ''LEDGER_PATH'' @ [CHR 0xC2, CHR 0xA0] @ ''= ROOT / '' @ [CHR 0x27] @ ''led.ndjson'' @ [CHR 0x27]"

definition ledger_bundle :: directory where
  "ledger_bundle = [(''BOOT_METABLOOMS.py'', File capital_boot)]"

text \<open>A library for which the byte \<open>0xFF\<close>, which no UTF-8 text holds, cannot be decoded.\<close>

definition strict_lib :: lib where
  "strict_lib = demo_lib\<lparr>decode := (\<lambda>bytes. if CHR 0xFF \<in> set bytes then None else Some bytes)\<rparr>"

section \<open>Properties of the capability extractor\<close>

lemma sort_iteration:
  assumes "iteration_order it1" "iteration_order it2"
  shows "sort (it1 (remdups xs)) = sort (it2 (remdups xs))"
proof (rule sorted_distinct_set_unique)
  from assms show "set (sort (it1 (remdups xs))) = set (sort (it2 (remdups xs)))"
    by (simp add: iteration_order_def)
  from assms show "distinct (sort (it1 (remdups xs)))" "distinct (sort (it2 (remdups xs)))"
    by (simp_all add: iteration_order_def)
qed simp_all

text \<open>
  C7.  The claim: an assignment is recorded only if its target is entirely upper-case.
  The condition of the code is \<^verbatim>\<open>id.isupper() and 'PATH' in id or 'DIR' in id\<close>, which
  Python reads as \<^verbatim>\<open>(id.isupper() and 'PATH' in id) or ('DIR' in id)\<close>: the assignment
  \<^verbatim>\<open>outDIR = 'x'\<close> is recorded although \<open>outDIR\<close> is not upper-case.
\<close>

theorem extract_path_constants_records_mixed_case:
  "extract_path_constants L (Module [Assign [Name ''outDIR''] (Constant (CStr ''x''))])
     = [(''outDIR'', path_value L (Constant (CStr ''x'')))]
   \<and> \<not> isupper ''outDIR''"
  by (simp add: extract_path_constants_def walk_def is_path_name_def isupper_def
      is_lower_char_def is_upper_char_def)

theorem extract_path_constants_records_mixed_case_witness:
  "extract_path_constants demo_lib (Module [Assign [Name ''outDIR''] (Constant (CStr ''x''))])
     = [(''outDIR'', ''<expr>'')]"
  using extract_path_constants_records_mixed_case [of demo_lib]
  by (simp add: path_value_def demo_lib_def)

text \<open>
  C9.  Two runs of \<open>extract_all\<close> on the same extractor yield the same surface: the
  extraction reads the tree and changes nothing, and the only place where a run could
  differ from another, the iteration order of the two hash sets, is sorted away.  This
  includes the error surface of an absent tree.
\<close>

theorem extract_all_deterministic:
  assumes "iteration_order it1" and "iteration_order it2"
  shows "extract_all L it1 self = extract_all L it2 self"
proof -
  have "extract_imports it1 t = extract_imports it2 t" for t
    unfolding extract_imports_def by (rule sort_iteration [OF assms])
  moreover have "extract_string_literals it1 t = extract_string_literals it2 t" for t
    unfolding extract_string_literals_def by (rule sort_iteration [OF assms])
  ultimately show ?thesis
    by (simp add: extract_all_def split: option.split sum.split)
qed

theorem extract_all_deterministic_witness:
  "iteration_order id \<and> iteration_order rev \<and>
   extract_all demo_lib id \<lparr>ex_source = demo_boot, ex_tree = Some demo_boot_tree, ex_error = None\<rparr>
     = extract_all demo_lib rev \<lparr>ex_source = demo_boot, ex_tree = Some demo_boot_tree, ex_error = None\<rparr>"
proof -
  have 1: "iteration_order id" and 2: "iteration_order rev"
    by (simp_all add: iteration_order_def)
  from extract_all_deterministic [OF 1 2] 1 2 show ?thesis
    by simp
qed

section \<open>Properties of the audit\<close>

subsection \<open>Auxiliary facts\<close>

lemma startswith_iff: "startswith s p \<longleftrightarrow> (\<exists>b. s = p @ b)"
  by (induction p arbitrary: s) (auto split: list.splits)

lemma py_in_iff: "py_in n h \<longleftrightarrow> (\<exists>a b. h = a @ n @ b)"
proof (induction h)
  case Nil
  then show ?case by auto
next
  case (Cons c cs)
  show ?case
  proof
    assume "py_in n (c # cs)"
    then consider "startswith (c # cs) n" | "py_in n cs" by auto
    then show "\<exists>a b. c # cs = a @ n @ b"
    proof cases
      case 1
      then obtain b where "c # cs = [] @ n @ b" by (auto simp: startswith_iff)
      then show ?thesis by blast
    next
      case 2
      with Cons obtain a b where "cs = a @ n @ b" by auto
      then have "c # cs = (c # a) @ n @ b" by simp
      then show ?thesis by blast
    qed
  next
    assume "\<exists>a b. c # cs = a @ n @ b"
    then obtain a b where ab: "c # cs = a @ n @ b" by blast
    show "py_in n (c # cs)"
    proof (cases a)
      case Nil
      with ab have "startswith (c # cs) n" by (auto simp: startswith_iff)
      then show ?thesis by simp
    next
      case (Cons x a')
      with ab have "cs = a' @ n @ b" by simp
      with Cons.IH have "py_in n cs" by blast
      then show ?thesis by simp
    qed
  qed
qed

lemma then_check_Inr: "then_check x f = Inr r \<longleftrightarrow> (\<exists>y. x = Inr y \<and> f y = Inr r)"
  by (cases x) (auto simp: then_check_def)

text \<open>A run that returns went through all eight checks, each returning.\<close>

lemma run_checks_steps:
  assumes "run_checks L d = Inr report"
  obtains r1 r2 r3 r4 r5 r6 r7 where
    "check_boot_structure L d empty_report = Inr r1"
    "check_delta_enforcement L d r1 = Inr r2"
    "check_gate_wiring L d r2 = Inr r3"
    "r4 = check_schema_usage L d r3"
    "check_ledger_integration L d r4 = Inr r5"
    "check_index_usage L d r5 = Inr r6"
    "r7 = check_csrg_presence L d r6"
    "check_manifest_loading L d r7 = Inr report"
  using assms unfolding run_checks_def then_check_Inr by auto

lemma spec_conflicts_add [simp]:
  "spec_conflicts (add_verified f r) = spec_conflicts r"
  "spec_conflicts (add_unwired f r) = spec_conflicts r"
  "spec_conflicts (add_missing f r) = spec_conflicts r"
  "spec_conflicts (add_unverifiable f r) = spec_conflicts r"
  by (simp_all add: add_verified_def add_unwired_def add_missing_def add_unverifiable_def)

lemma boot_structure_conflicts:
  "check_boot_structure L d r = Inr r' \<Longrightarrow> spec_conflicts r' = spec_conflicts r"
  by (auto simp: check_boot_structure_def split: if_splits sum.splits option.splits)

lemma delta_conflicts:
  "check_delta_enforcement L d r = Inr r' \<Longrightarrow> spec_conflicts r' = spec_conflicts r"
  by (auto simp: check_delta_enforcement_def Let_def split: if_splits sum.splits option.splits)

lemma gate_conflicts:
  "check_gate_wiring L d r = Inr r' \<Longrightarrow> spec_conflicts r' = spec_conflicts r"
  by (auto simp: check_gate_wiring_def Let_def split: if_splits sum.splits option.splits)

lemma schema_conflicts:
  "spec_conflicts (check_schema_usage L d r) = spec_conflicts r"
  by (auto simp: check_schema_usage_def Let_def split: if_splits sum.splits option.splits)

lemma ledger_conflicts:
  "check_ledger_integration L d r = Inr r' \<Longrightarrow> spec_conflicts r' = spec_conflicts r"
  by (auto simp: check_ledger_integration_def Let_def split: if_splits sum.splits option.splits)

lemma index_conflicts:
  "check_index_usage L d r = Inr r' \<Longrightarrow> spec_conflicts r' = spec_conflicts r"
  by (auto simp: check_index_usage_def Let_def split: if_splits sum.splits option.splits)

lemma csrg_conflicts:
  "spec_conflicts (check_csrg_presence L d r) = spec_conflicts r"
  by (auto simp: check_csrg_presence_def Let_def split: if_splits sum.splits option.splits)

lemma manifest_conflicts:
  "check_manifest_loading L d r = Inr r' \<Longrightarrow> spec_conflicts r' = spec_conflicts r"
  by (auto simp: check_manifest_loading_def Let_def split: if_splits sum.splits option.splits)

lemma run_checks_conflicts:
  assumes "run_checks L d = Inr r"
  shows "spec_conflicts r = []"
proof -
  from assms obtain r1 r2 r3 r4 r5 r6 r7 where
    1: "check_boot_structure L d empty_report = Inr r1" and
    2: "check_delta_enforcement L d r1 = Inr r2" and
    3: "check_gate_wiring L d r2 = Inr r3" and
    4: "r4 = check_schema_usage L d r3" and
    5: "check_ledger_integration L d r4 = Inr r5" and
    6: "check_index_usage L d r5 = Inr r6" and
    7: "r7 = check_csrg_presence L d r6" and
    8: "check_manifest_loading L d r7 = Inr r"
    by (rule run_checks_steps)
  have "spec_conflicts empty_report = []" by (simp add: empty_report_def)
  with boot_structure_conflicts [OF 1] delta_conflicts [OF 2] gate_conflicts [OF 3]
    ledger_conflicts [OF 5] index_conflicts [OF 6] manifest_conflicts [OF 8]
    schema_conflicts [of L d r3] csrg_conflicts [of L d r6] 4 7
  show ?thesis by simp
qed

text \<open>Which findings a check can add: none of checks two to eight names the boot file.\<close>

lemma findings_add [simp]:
  "set (findings (add_verified f r)) = insert f (set (findings r))"
  "set (findings (add_unwired f r)) = insert f (set (findings r))"
  "set (findings (add_missing f r)) = insert f (set (findings r))"
  "set (findings (add_unverifiable f r)) = insert f (set (findings r))"
  by (auto simp: findings_def add_verified_def add_unwired_def add_missing_def add_unverifiable_def)

lemma delta_about:
  "check_delta_enforcement L d r = Inr r' \<Longrightarrow> f \<in> set (findings r') \<Longrightarrow>
     f \<in> set (findings r) \<or> not_about_boot f"
  by (auto simp: check_delta_enforcement_def Let_def not_about_boot_def component_def
      split: if_splits sum.splits option.splits)

lemma gate_about:
  "check_gate_wiring L d r = Inr r' \<Longrightarrow> f \<in> set (findings r') \<Longrightarrow>
     f \<in> set (findings r) \<or> not_about_boot f"
  by (auto simp: check_gate_wiring_def Let_def not_about_boot_def component_def
      split: if_splits sum.splits option.splits)

lemma schema_about:
  "f \<in> set (findings (check_schema_usage L d r)) \<Longrightarrow>
     f \<in> set (findings r) \<or> not_about_boot f"
  by (auto simp: check_schema_usage_def Let_def not_about_boot_def component_def
      split: if_splits sum.splits option.splits)

lemma ledger_about:
  "check_ledger_integration L d r = Inr r' \<Longrightarrow> f \<in> set (findings r') \<Longrightarrow>
     f \<in> set (findings r) \<or> not_about_boot f"
  by (auto simp: check_ledger_integration_def Let_def not_about_boot_def component_def
      split: if_splits sum.splits option.splits)

lemma index_about:
  "check_index_usage L d r = Inr r' \<Longrightarrow> f \<in> set (findings r') \<Longrightarrow>
     f \<in> set (findings r) \<or> not_about_boot f"
  by (auto simp: check_index_usage_def Let_def not_about_boot_def component_def
      split: if_splits sum.splits option.splits)

lemma csrg_about:
  "f \<in> set (findings (check_csrg_presence L d r)) \<Longrightarrow>
     f \<in> set (findings r) \<or> not_about_boot f"
  by (auto simp: check_csrg_presence_def Let_def not_about_boot_def component_def
      split: if_splits sum.splits option.splits)

lemma manifest_about:
  "check_manifest_loading L d r = Inr r' \<Longrightarrow> f \<in> set (findings r') \<Longrightarrow>
     f \<in> set (findings r) \<or> not_about_boot f"
  by (auto simp: check_manifest_loading_def Let_def not_about_boot_def component_def
      split: if_splits sum.splits option.splits)




subsection \<open>The bundle without a boot file\<close>

text \<open>
  C2, as claimed: without \<^verbatim>\<open>BOOT_METABLOOMS.py\<close>, the delta, gate, ledger and manifest
  checks each add a \<open>missing\<close> finding.  They do not: each begins with
  \<^verbatim>\<open>if not boot_file.exists(): return\<close> (the gate check after looking for gate
  files, the manifest check after loading the manifest) and leaves the report as it
  was.
\<close>

theorem boot_missing_counterexample:
  "\<not> exists no_boot_bundle BOOT
   \<and> check_delta_enforcement demo_lib no_boot_bundle empty_report = Inr empty_report
   \<and> check_gate_wiring demo_lib no_boot_bundle empty_report = Inr empty_report
   \<and> check_ledger_integration demo_lib no_boot_bundle empty_report = Inr empty_report
   \<and> check_manifest_loading demo_lib no_boot_bundle empty_report = Inr empty_report"
  by code_simp

text \<open>
  C2, amended: without the boot file, the boot-structure check records the one
  \<open>missing\<close> finding for it; the delta and ledger checks add nothing; the gate check
  adds a \<open>missing\<close> finding only when there is no gate file, the manifest check only
  when the manifest is absent or not valid JSON.
\<close>

theorem boot_missing_checks:
  assumes "\<not> exists d BOOT"
  shows "check_boot_structure L d r
           = Inr (add_missing [(''component'', PStr ''BOOT_METABLOOMS.py''),
                               (''reason'', PStr ''File not found in bundle'')] r)
       \<and> check_delta_enforcement L d r = Inr r
       \<and> check_ledger_integration L d r = Inr r
       \<and> check_gate_wiring L d r
           = (if glob star_gate_star_py d = []
              then Inr (add_missing [(''component'', PStr ''Gate infrastructure''),
                                     (''reason'', PStr ''No gate files found'')] r)
              else Inr r)
       \<and> check_manifest_loading L d r
           = (case map_of d ''boot_manifest.json'' of
                None \<Rightarrow> Inr (add_missing [(''component'', PStr ''boot_manifest.json''),
                                   (''reason'', PStr ''File not found in bundle root'')] r)
              | Some manifest_file \<Rightarrow>
                  (case json_load L manifest_file of
                     Inl e \<Rightarrow>
                       (case json_decode_error e of
                          Some msg \<Rightarrow>
                            Inr (add_missing [(''component'', PStr ''boot_manifest.json''),
                                 (''reason'', PStr (''Invalid JSON: '' @ msg))] r)
                        | None \<Rightarrow> Inl e)
                   | Inr manifest_data \<Rightarrow>
                       (case py_get_preflight manifest_data of Inl e \<Rightarrow> Inl e | Inr p \<Rightarrow> Inr r)))"
proof -
  have 1: "check_boot_structure L d r
           = Inr (add_missing [(''component'', PStr ''BOOT_METABLOOMS.py''),
                               (''reason'', PStr ''File not found in bundle'')] r)"
    using assms by (simp add: check_boot_structure_def)
  have 2: "check_delta_enforcement L d r = Inr r"
    using assms by (simp add: check_delta_enforcement_def)
  have 3: "check_ledger_integration L d r = Inr r"
    using assms by (simp add: check_ledger_integration_def)
  have 4: "check_gate_wiring L d r
           = (if glob star_gate_star_py d = []
              then Inr (add_missing [(''component'', PStr ''Gate infrastructure''),
                                     (''reason'', PStr ''No gate files found'')] r)
              else Inr r)"
    using assms by (simp add: check_gate_wiring_def)
  have 5: "check_manifest_loading L d r
           = (case map_of d ''boot_manifest.json'' of
                None \<Rightarrow> Inr (add_missing [(''component'', PStr ''boot_manifest.json''),
                                   (''reason'', PStr ''File not found in bundle root'')] r)
              | Some manifest_file \<Rightarrow>
                  (case json_load L manifest_file of
                     Inl e \<Rightarrow>
                       (case json_decode_error e of
                          Some msg \<Rightarrow>
                            Inr (add_missing [(''component'', PStr ''boot_manifest.json''),
                                 (''reason'', PStr (''Invalid JSON: '' @ msg))] r)
                        | None \<Rightarrow> Inl e)
                   | Inr manifest_data \<Rightarrow>
                       (case py_get_preflight manifest_data of Inl e \<Rightarrow> Inl e | Inr p \<Rightarrow> Inr r)))"
    using assms by (simp add: check_manifest_loading_def split: option.split sum.split)
  from 1 2 3 4 5 show ?thesis by blast
qed

theorem boot_missing_checks_witness:
  "check_boot_structure demo_lib [] empty_report
     = Inr (add_missing [(''component'', PStr ''BOOT_METABLOOMS.py''),
                         (''reason'', PStr ''File not found in bundle'')] empty_report)
   \<and> check_delta_enforcement demo_lib [] empty_report = Inr empty_report
   \<and> check_ledger_integration demo_lib [] empty_report = Inr empty_report
   \<and> check_gate_wiring demo_lib [] empty_report
     = Inr (add_missing [(''component'', PStr ''Gate infrastructure''),
                         (''reason'', PStr ''No gate files found'')] empty_report)
   \<and> check_manifest_loading demo_lib [] empty_report
     = Inr (add_missing [(''component'', PStr ''boot_manifest.json''),
                         (''reason'', PStr ''File not found in bundle root'')] empty_report)"
proof -
  have h: "\<not> exists [] BOOT" by (simp add: exists_def)
  from boot_missing_checks [OF h, of demo_lib empty_report] show ?thesis
    by (simp add: glob_def)
qed

subsection \<open>The five buckets\<close>

text \<open>
  C5.  The dictionary that \<open>audit_bundle\<close> returns has exactly the five keys, in this
  order, each with a list of findings, and the list under \<open>spec_conflicts\<close> is empty:
  the run starts from an empty report and no check appends to that bucket.
\<close>

theorem audit_bundle_five_keys:
  assumes "audit_bundle L b = Inr out"
  shows "map fst out = [''verified_implementations'', ''present_but_unwired'', ''missing'',
                        ''spec_conflicts'', ''unverifiable_with_given_tools'']
         \<and> map_of out ''spec_conflicts'' = Some []"
proof -
  from assms obtain r where r: "run L b = Inr r"
    and out: "out = [(''verified_implementations'', verified_implementations r),
               (''present_but_unwired'', present_but_unwired r),
               (''missing'', missing r),
               (''spec_conflicts'', spec_conflicts r),
               (''unverifiable_with_given_tools'', unverifiable r)]"
    by (auto simp: audit_bundle_def split: sum.splits)
  from r obtain d where "run_checks L d = Inr r"
    by (auto simp: run_def split: zipfile.splits sum.splits)
  then have "spec_conflicts r = []" by (rule run_checks_conflicts)
  with out show ?thesis by simp
qed

theorem audit_bundle_five_keys_witness:
  "\<exists>out. audit_bundle demo_lib (Archive [(''BOOT_METABLOOMS.py'', ''import sys'')]) = Inr out
     \<and> map fst out = [''verified_implementations'', ''present_but_unwired'', ''missing'',
                        ''spec_conflicts'', ''unverifiable_with_given_tools'']
     \<and> map_of out ''spec_conflicts'' = Some []"
proof -
  have "returns (audit_bundle demo_lib (Archive [(''BOOT_METABLOOMS.py'', ''import sys'')]))"
    by code_simp
  then obtain out
    where out: "audit_bundle demo_lib (Archive [(''BOOT_METABLOOMS.py'', ''import sys'')]) = Inr out"
    by (cases "audit_bundle demo_lib (Archive [(''BOOT_METABLOOMS.py'', ''import sys'')])") auto
  show ?thesis
  proof (intro exI conjI)
    show "audit_bundle demo_lib (Archive [(''BOOT_METABLOOMS.py'', ''import sys'')]) = Inr out"
      by (rule out)
    show "map fst out = [''verified_implementations'', ''present_but_unwired'', ''missing'',
                        ''spec_conflicts'', ''unverifiable_with_given_tools'']"
      using audit_bundle_five_keys [OF out] by (rule conjunct1)
    show "map_of out ''spec_conflicts'' = Some []"
      using audit_bundle_five_keys [OF out] by (rule conjunct2)
  qed
qed

subsection \<open>The ledger check\<close>



subsection \<open>The boot-structure check\<close>

text \<open>
  C8, as claimed: when the manifest declares an entry point that the bundle does not
  hold, the boot-structure check adds a \<open>missing\<close> finding that cites it.  The check
  reads no manifest: here the manifest declares \<^verbatim>\<open>RUN_X.py\<close>, the bundle has no such
  file, and the check adds its \<open>verified_implementations\<close> finding and nothing else.
\<close>

theorem boot_structure_manifest_counterexample:
  "json_load demo_lib (File entrypoint_manifest) = Inr (PDict [(''entrypoint'', PStr ''RUN_X.py'')])
   \<and> map_of manifest_bundle ''boot_manifest.json'' = Some (File entrypoint_manifest)
   \<and> \<not> exists manifest_bundle ''RUN_X.py''
   \<and> check_boot_structure demo_lib manifest_bundle empty_report
       = Inr \<lparr>verified_implementations =
                [[(''component'', PStr ''BOOT_METABLOOMS.py''),
                  (''detail'', PStr ''File exists and is valid Python''),
                  (''path'', PStr ''BOOT_METABLOOMS.py'')]],
              present_but_unwired = [], missing = [], spec_conflicts = [], unverifiable = []\<rparr>"
  by code_simp

text \<open>
  C8, amended: the boot-structure check looks for the two fixed names
  \<^verbatim>\<open>BOOT_METABLOOMS.py\<close> and \<^verbatim>\<open>RUN_METABLOOMS.py\<close> only.  Two bundles that agree on the
  boot file and on whether the run file exists get the same result, whatever their
  manifests say and however JSON is read.
\<close>

theorem check_boot_structure_ignores_manifest:
  assumes "map_of d' BOOT = map_of d BOOT"
    and "exists d' ''RUN_METABLOOMS.py'' \<longleftrightarrow> exists d ''RUN_METABLOOMS.py''"
  shows "check_boot_structure (L\<lparr>json_loads := j\<rparr>) d' r = check_boot_structure L d r"
proof -
  have "read_node (L\<lparr>json_loads := j\<rparr>) x = read_node L x" for x
    by (cases x) simp_all
  with assms show ?thesis
    by (simp add: check_boot_structure_def exists_def read_text_def split: option.split sum.split)
qed

theorem check_boot_structure_ignores_manifest_witness:
  "check_boot_structure (demo_lib\<lparr>json_loads := (\<lambda>s. Inl (JSONDecodeError []))\<rparr>)
     manifest_bundle empty_report
   = check_boot_structure demo_lib
       [(''BOOT_METABLOOMS.py'', File demo_boot), (''RUN_METABLOOMS.py'', File ''pass'')] empty_report"
proof -
  have 1: "map_of manifest_bundle BOOT
             = map_of [(''BOOT_METABLOOMS.py'', File demo_boot), (''RUN_METABLOOMS.py'', File ''pass'')] BOOT"
    by (simp add: manifest_bundle_def BOOT_def)
  have 2: "exists manifest_bundle ''RUN_METABLOOMS.py''
             \<longleftrightarrow> exists [(''BOOT_METABLOOMS.py'', File demo_boot), (''RUN_METABLOOMS.py'', File ''pass'')]
                   ''RUN_METABLOOMS.py''"
    by (simp add: manifest_bundle_def exists_def)
  from check_boot_structure_ignores_manifest [OF 1 2] show ?thesis .
qed

text \<open>
  C10.  When the boot file exists and \<^verbatim>\<open>RUN_METABLOOMS.py\<close> does not, the
  boot-structure check adds the \<open>missing\<close> finding for the run file and returns; the
  result does not depend on the parser, which is not called.  No finding of the whole
  report then has the boot file as its component.
\<close>

theorem run_file_missing_hides_boot_validity:
  assumes "exists d BOOT" and "\<not> exists d ''RUN_METABLOOMS.py''"
  shows "check_boot_structure L d r
           = Inr (add_missing [(''component'', PStr ''RUN_METABLOOMS.py''),
                               (''reason'', PStr ''File not found in bundle'')] r)
         \<and> (\<forall>report. run_checks L d = Inr report \<longrightarrow>
               (\<forall>f \<in> set (findings report). component f \<noteq> Some (PStr ''BOOT_METABLOOMS.py'')))"
proof -
  have first: "check_boot_structure L d r
           = Inr (add_missing [(''component'', PStr ''RUN_METABLOOMS.py''),
                               (''reason'', PStr ''File not found in bundle'')] r)" for r
    using assms by (simp add: check_boot_structure_def)
  have "not_about_boot f" if rep: "run_checks L d = Inr report" and f: "f \<in> set (findings report)"
    for report f
  proof -
    from rep obtain r1 r2 r3 r4 r5 r6 r7 where
      1: "check_boot_structure L d empty_report = Inr r1" and
      2: "check_delta_enforcement L d r1 = Inr r2" and
      3: "check_gate_wiring L d r2 = Inr r3" and
      4: "r4 = check_schema_usage L d r3" and
      5: "check_ledger_integration L d r4 = Inr r5" and
      6: "check_index_usage L d r5 = Inr r6" and
      7: "r7 = check_csrg_presence L d r6" and
      8: "check_manifest_loading L d r7 = Inr report"
      by (rule run_checks_steps)
    from 1 first [of empty_report] have r1: "\<forall>g \<in> set (findings r1). not_about_boot g"
      by (auto simp: findings_def empty_report_def add_missing_def not_about_boot_def component_def)
    with delta_about [OF 2] have r2: "\<forall>g \<in> set (findings r2). not_about_boot g" by blast
    with gate_about [OF 3] have r3: "\<forall>g \<in> set (findings r3). not_about_boot g" by blast
    with schema_about [of _ L d r3] 4 have r4: "\<forall>g \<in> set (findings r4). not_about_boot g" by blast
    with ledger_about [OF 5] have r5: "\<forall>g \<in> set (findings r5). not_about_boot g" by blast
    with index_about [OF 6] have r6: "\<forall>g \<in> set (findings r6). not_about_boot g" by blast
    with csrg_about [of _ L d r6] 7 have r7: "\<forall>g \<in> set (findings r7). not_about_boot g" by blast
    with manifest_about [OF 8] f show ?thesis by blast
  qed
  with first show ?thesis by (auto simp: not_about_boot_def)
qed

theorem run_file_missing_hides_boot_validity_witness:
  "check_boot_structure demo_lib boot_only_bundle empty_report
     = Inr (add_missing [(''component'', PStr ''RUN_METABLOOMS.py''),
                         (''reason'', PStr ''File not found in bundle'')] empty_report)
   \<and> (\<exists>report. run_checks demo_lib boot_only_bundle = Inr report
         \<and> list_all (\<lambda>f. component f \<noteq> Some (PStr ''BOOT_METABLOOMS.py'')) (findings report))"
proof -
  have 1: "exists boot_only_bundle BOOT" and 2: "\<not> exists boot_only_bundle ''RUN_METABLOOMS.py''"
    by (simp_all add: boot_only_bundle_def exists_def BOOT_def)
  have "returns (run_checks demo_lib boot_only_bundle)"
    by code_simp
  then obtain report where rep: "run_checks demo_lib boot_only_bundle = Inr report"
    by (cases "run_checks demo_lib boot_only_bundle") auto
  from run_file_missing_hides_boot_validity [OF 1 2, of demo_lib empty_report] rep
  show ?thesis by (auto simp: list_all_iff)
qed

subsection \<open>The CSRG keyword check\<close>

lemma lower_append: "lower (a @ b) = lower a @ lower b"
  by (simp add: lower_def)

lemma py_in_lower: "py_in keyword (lower src) \<longleftrightarrow> mentions_caseless keyword src"
proof
  assume "py_in keyword (lower src)"
  then obtain a b where "map lower_char src = a @ keyword @ b"
    by (auto simp: py_in_iff lower_def)
  then obtain a' rest where src: "src = a' @ rest" and rest: "keyword @ b = map lower_char rest"
    unfolding map_eq_append_conv by blast
  from rest obtain w b' where "rest = w @ b'" and "keyword = map lower_char w"
    unfolding append_eq_map_conv by blast
  with src have "src = a' @ w @ b'" and "map lower_char w = keyword"
    by simp_all
  then show "mentions_caseless keyword src"
    unfolding mentions_caseless_def py_in_iff lower_def by blast
next
  assume "mentions_caseless keyword src"
  then obtain w a b where "src = a @ w @ b" and "lower w = keyword"
    by (auto simp: mentions_caseless_def py_in_iff)
  then have "lower src = lower a @ keyword @ lower b"
    by (simp add: lower_append)
  then show "py_in keyword (lower src)"
    unfolding py_in_iff by blast
qed

lemma mentions_csrg_iff:
  "mentions_csrg L x \<longleftrightarrow>
     (\<exists>bytes src. x = File bytes \<and> decode L bytes = Some src \<and> mentions_caseless ''csrg'' src)"
  by (cases x) (auto simp: mentions_csrg_def py_in_lower split: option.splits)

lemma in_tree_iff:
  "in_tree d e \<longleftrightarrow> e \<in> set d \<or> (\<exists>name sub. (name, Dir sub) \<in> set d \<and> in_tree sub e)"
  by (auto intro: in_tree.intros elim: in_tree.cases)

lemma iterate_in_tree:
  "(\<exists>dir \<in> set (iterate_node x). e \<in> set dir) \<longleftrightarrow> (\<exists>d. x = Dir d \<and> in_tree d e)"
  "(\<exists>dir \<in> set (iterate_entries es). e \<in> set dir)
     \<longleftrightarrow> (\<exists>name sub. (name, Dir sub) \<in> set es \<and> in_tree sub e)"
proof (induction x and es rule: iterate_node_iterate_entries.induct)
  case (1 bytes)
  show ?case by simp
next
  case (2 es)
  show ?case
    using 2 in_tree_iff [of es e] by auto
next
  case 3
  show ?case by simp
next
  case (4 entry es)
  show ?case
  proof (cases entry)
    case (Pair name x)
    with 4 show ?thesis by auto
  qed
qed

lemma rglob_py_iff: "e \<in> set (rglob_py d) \<longleftrightarrow> in_tree d e \<and> endswith (fst e) ''.py''"
proof -
  have "e \<in> set (rglob_py d)
          \<longleftrightarrow> (\<exists>dir \<in> set (iterate_node (Dir d)). e \<in> set dir) \<and> endswith (fst e) ''.py''"
    by (auto simp: rglob_py_def glob_def star_py_def)
  with iterate_in_tree(1) [of "Dir d" e] show ?thesis by simp
qed

text \<open>
  C4.  The CSRG check leaves \<open>verified_implementations\<close> as it was.  If the keyword
  appears, in any case, in at least one readable \<^verbatim>\<open>*.py\<close> file of the bundle, the
  check adds one \<open>unverifiable\<close> finding whose \<open>files\<close> are the names of exactly those
  files; if it appears in none, the check adds one \<open>missing\<close> finding.
\<close>

theorem check_csrg_presence_classifies:
  "verified_implementations (check_csrg_presence L d r) = verified_implementations r
   \<and> set (filter (\<lambda>e. mentions_csrg L (snd e)) (rglob_py d)) = {e. in_tree d e \<and> csrg_source L e}
   \<and> ((\<exists>e. in_tree d e \<and> csrg_source L e) \<longrightarrow>
        unverifiable (check_csrg_presence L d r)
          = unverifiable r
            @ [[(''component'', PStr ''CSRG gate''),
                (''reason'', PStr ''Files mention CSRG but wiring unclear without execution''),
                (''files'', str_list (map fst (filter (\<lambda>e. mentions_csrg L (snd e)) (rglob_py d))))]]
        \<and> missing (check_csrg_presence L d r) = missing r)
   \<and> (\<not> (\<exists>e. in_tree d e \<and> csrg_source L e) \<longrightarrow>
        missing (check_csrg_presence L d r)
          = missing r
            @ [[(''component'', PStr ''CSRG gate''),
                (''reason'', PStr (''No files contain 'csrg' or 'CSRG'' @ [CHR 0x27])),
                (''evidence'', PStr (''Searched '' @ str_nat (length (rglob_py d))
                                      @ '' Python files, 0 matches''))]]
        \<and> unverifiable (check_csrg_presence L d r) = unverifiable r)"
proof -
  let ?matching = "filter (\<lambda>e. mentions_csrg L (snd e)) (rglob_py d)"
  have set_eq: "set ?matching = {e. in_tree d e \<and> csrg_source L e}"
    by (auto simp: rglob_py_iff csrg_source_def mentions_csrg_iff)
  have empty_iff: "map fst ?matching = [] \<longleftrightarrow> \<not> (\<exists>e. in_tree d e \<and> csrg_source L e)"
  proof -
    have "map fst ?matching = [] \<longleftrightarrow> set ?matching = {}"
      by (simp only: map_is_Nil_conv set_empty)
    also have "\<dots> \<longleftrightarrow> \<not> (\<exists>e. in_tree d e \<and> csrg_source L e)"
      unfolding set_eq by blast
    finally show ?thesis .
  qed
  have 1: "verified_implementations (check_csrg_presence L d r) = verified_implementations r"
    by (simp add: check_csrg_presence_def Let_def add_missing_def add_unverifiable_def)
  have 2: "unverifiable (check_csrg_presence L d r)
          = unverifiable r
            @ [[(''component'', PStr ''CSRG gate''),
                (''reason'', PStr ''Files mention CSRG but wiring unclear without execution''),
                (''files'', str_list (map fst ?matching))]]
        \<and> missing (check_csrg_presence L d r) = missing r"
    if "\<exists>e. in_tree d e \<and> csrg_source L e"
  proof -
    from that empty_iff have "map fst ?matching \<noteq> []" by blast
    then show ?thesis
      by (simp add: check_csrg_presence_def Let_def add_unverifiable_def)
  qed
  have 3: "missing (check_csrg_presence L d r)
          = missing r
            @ [[(''component'', PStr ''CSRG gate''),
                (''reason'', PStr (''No files contain 'csrg' or 'CSRG'' @ [CHR 0x27])),
                (''evidence'', PStr (''Searched '' @ str_nat (length (rglob_py d))
                                      @ '' Python files, 0 matches''))]]
        \<and> unverifiable (check_csrg_presence L d r) = unverifiable r"
    if "\<not> (\<exists>e. in_tree d e \<and> csrg_source L e)"
  proof -
    from that empty_iff have "map fst ?matching = []" by blast
    then show ?thesis
      by (simp add: check_csrg_presence_def Let_def add_missing_def)
  qed
  from 1 set_eq 2 3 show ?thesis by blast
qed

theorem check_csrg_presence_classifies_witness:
  "verified_implementations (check_csrg_presence demo_lib csrg_bundle empty_report) = []
   \<and> missing (check_csrg_presence demo_lib csrg_bundle empty_report) = []
   \<and> unverifiable (check_csrg_presence demo_lib csrg_bundle empty_report)
       = [[(''component'', PStr ''CSRG gate''),
           (''reason'', PStr ''Files mention CSRG but wiring unclear without execution''),
           (''files'', PList [PStr ''a.py'', PStr ''b.py''])]]"
proof -
  have "py_in ''CSRG'' ''x = CSRG()''" and "lower ''CSRG'' = ''csrg''"
    by code_simp+
  then have "mentions_caseless ''csrg'' ''x = CSRG()''"
    unfolding mentions_caseless_def by blast
  then have "csrg_source demo_lib (''a.py'', File ''x = CSRG()'')"
    by (simp add: csrg_source_def demo_lib_def endswith_def)
  moreover have "in_tree csrg_bundle (''a.py'', File ''x = CSRG()'')"
    by (rule in_tree.here) (simp add: csrg_bundle_def)
  ultimately have e: "\<exists>e. in_tree csrg_bundle e \<and> csrg_source demo_lib e"
    by blast
  have files: "map fst (filter (\<lambda>e. mentions_csrg demo_lib (snd e)) (rglob_py csrg_bundle))
                 = [''a.py'', ''b.py'']"
    by code_simp
  from check_csrg_presence_classifies [of demo_lib csrg_bundle empty_report] e files
  show ?thesis
    by (simp add: empty_report_def str_list_def)
qed

subsection \<open>When the run returns\<close>

lemma returns_then_check:
  assumes "\<And>r. returns (check r) \<longleftrightarrow> C"
  shows "returns (then_check result check) \<longleftrightarrow> returns result \<and> C"
  using assms by (cases result) (simp_all add: then_check_def)

lemma boot_analyzable_cases:
  assumes "boot_analyzable L d" and "exists d BOOT"
  obtains (parsed) src t a where "read_text L d BOOT = Inr src" "ast_parse L src = Inr t"
      "BootAnalyzer L d = Inr a" "an_source a = src"
    | (rejected) src e msg a where "read_text L d BOOT = Inr src" "ast_parse L src = Inl e"
      "syntax_error e = Some msg" "BootAnalyzer L d = Inr a" "an_source a = src"
proof (cases "read_text L d BOOT")
  case (Inl e)
  with assms show ?thesis by (simp add: boot_analyzable_def BootAnalyzer_def)
next
  case src: (Inr src)
  show ?thesis
  proof (cases "ast_parse L src")
    case (Inr t)
    with src show ?thesis
      by (intro parsed [of src t "\<lparr>an_source = src, an_tree = Some t, parse_error = None\<rparr>"])
        (simp_all add: BootAnalyzer_def)
  next
    case (Inl e)
    show ?thesis
    proof (cases "syntax_error e")
      case None
      with assms src Inl show ?thesis by (simp add: boot_analyzable_def BootAnalyzer_def)
    next
      case (Some msg)
      with src Inl show ?thesis
        by (intro rejected [of src e msg "\<lparr>an_source = src, an_tree = None, parse_error = Some msg\<rparr>"])
          (simp_all add: BootAnalyzer_def)
    qed
  qed
qed

lemma returns_boot_structure:
  assumes "boot_analyzable L d"
  shows "returns (check_boot_structure L d r)"
proof (cases "exists d BOOT")
  case False
  then show ?thesis by (simp add: check_boot_structure_def)
next
  case True
  with assms show ?thesis
    by (cases rule: boot_analyzable_cases) (simp_all add: check_boot_structure_def)
qed

lemma returns_delta:
  "returns (check_delta_enforcement L d r) \<longleftrightarrow> boot_analyzable L d"
  by (cases "BootAnalyzer L d")
    (simp_all add: boot_analyzable_def check_delta_enforcement_def Let_def)

lemma returns_gate:
  assumes "boot_analyzable L d"
  shows "returns (check_gate_wiring L d r)"
proof (cases "exists d BOOT")
  case False
  then show ?thesis by (simp add: check_gate_wiring_def Let_def)
next
  case True
  with assms show ?thesis
    by (cases rule: boot_analyzable_cases) (simp_all add: check_gate_wiring_def Let_def)
qed

lemma returns_ledger:
  assumes "boot_analyzable L d"
  shows "returns (check_ledger_integration L d r)"
proof (cases "exists d BOOT")
  case False
  then show ?thesis by (simp add: check_ledger_integration_def)
next
  case True
  with assms show ?thesis
    by (cases rule: boot_analyzable_cases) (simp_all add: check_ledger_integration_def Let_def)
qed

lemma returns_py_keys: "returns (py_keys v) \<longleftrightarrow> is_dict v"
  by (cases v) simp_all

lemma returns_py_len_of: "returns (py_len_of v) \<longleftrightarrow> has_len v"
  by (cases v) simp_all

lemma returns_index:
  "returns (check_index_usage L d r) \<longleftrightarrow> index_loadable L d"
proof (cases "map_of d ''RUNTIME_INDEX.json''")
  case None
  then show ?thesis by (simp add: check_index_usage_def index_loadable_def)
next
  case (Some x)
  show ?thesis
  proof (cases "json_load L x")
    case (Inl e)
    with Some show ?thesis
      by (cases "json_decode_error e") (simp_all add: check_index_usage_def index_loadable_def)
  next
    case (Inr v)
    with Some returns_py_keys [of v] show ?thesis
      by (cases "py_keys v") (simp_all add: check_index_usage_def index_loadable_def)
  qed
qed

lemma returns_manifest:
  assumes "boot_analyzable L d"
  shows "returns (check_manifest_loading L d r) \<longleftrightarrow> manifest_loadable L d"
proof (cases "map_of d ''boot_manifest.json''")
  case None
  then show ?thesis by (simp add: check_manifest_loading_def manifest_loadable_def)
next
  case (Some x)
  show ?thesis
  proof (cases "json_load L x")
    case (Inl e)
    with Some show ?thesis
      by (cases "json_decode_error e") (simp_all add: check_manifest_loading_def manifest_loadable_def)
  next
    case (Inr v)
    show ?thesis
    proof (cases "py_get_preflight v")
      case (Inl e)
      with Some Inr show ?thesis
        by (simp add: check_manifest_loading_def manifest_loadable_def)
    next
      case p: (Inr preflight)
      show ?thesis
      proof (cases "exists d BOOT")
        case False
        then have "read_text L d BOOT = Inl FileNotFoundError"
          by (simp add: read_text_def exists_def)
        with False Some Inr p show ?thesis
          by (simp add: check_manifest_loading_def manifest_loadable_def)
      next
        case True
        with assms obtain a src where a: "BootAnalyzer L d = Inr a"
          and src: "read_text L d BOOT = Inr src" and "an_source a = src"
          by (cases rule: boot_analyzable_cases) blast+
        with True Some Inr p returns_py_len_of [of preflight] show ?thesis
          by (cases "py_len_of preflight")
            (simp_all add: check_manifest_loading_def manifest_loadable_def loads_file_def)
      qed
    qed
  qed
qed

lemma returns_run_checks:
  "returns (run_checks L d) \<longleftrightarrow> boot_analyzable L d \<and> index_loadable L d \<and> manifest_loadable L d"
proof (cases "boot_analyzable L d")
  case True
  have "returns (run_checks L d) \<longleftrightarrow> index_loadable L d \<and> manifest_loadable L d"
    unfolding run_checks_def
    by (simp add: returns_then_check [where C = "manifest_loadable L d"]
        returns_then_check [where C = True]
        returns_then_check [where C = "index_loadable L d"]
        returns_manifest returns_index returns_ledger returns_gate returns_delta
        returns_boot_structure True)
  with True show ?thesis by simp
next
  case False
  have "\<not> returns (then_check (check_boot_structure L d empty_report) (check_delta_enforcement L d))"
    using False by (simp add: returns_then_check [where C = "boot_analyzable L d"] returns_delta)
  then have "\<not> returns (run_checks L d)"
    unfolding run_checks_def
    by (auto simp: then_check_def split: sum.splits)
  with False show ?thesis by simp
qed

text \<open>
  C1, as claimed: once the file tree materialises, no exception escapes from \<open>run\<close>.
  One does: an index file that holds the JSON array \<^verbatim>\<open>[]\<close> is extracted, read and
  parsed, and \<^verbatim>\<open>index_data.keys()\<close> raises \<^verbatim>\<open>AttributeError\<close>, which the handler for
  \<^verbatim>\<open>json.JSONDecodeError\<close> does not catch and nothing around the checks does either.
\<close>

theorem run_exception_escapes_counterexample:
  "extractall [(''RUNTIME_INDEX.json'', ''[]'')] = Inr [(''RUNTIME_INDEX.json'', File ''[]'')]
   \<and> run demo_lib (Archive [(''RUNTIME_INDEX.json'', ''[]'')]) = Inl AttributeError"
  by code_simp

text \<open>
  C1, amended: for a bundle whose file tree materialises, \<open>run\<close> is the eight checks on
  that tree, and it returns a report exactly when the boot file can be analysed and
  the index and the manifest can be loaded.  In every other case the exception of the
  failing check is the result of \<open>run\<close>: no check failure becomes a finding.
\<close>

theorem run_returns_iff:
  assumes "extractall members = Inr d"
  shows "run L (Archive members) = run_checks L d
       \<and> (returns (run L (Archive members))
            \<longleftrightarrow> boot_analyzable L d \<and> index_loadable L d \<and> manifest_loadable L d)"
  using assms returns_run_checks [of L d] by (simp add: run_def)

theorem run_returns_iff_witness:
  "returns (run demo_lib (Archive [(''BOOT_METABLOOMS.py'', ''import sys''), (''RUNTIME_INDEX.json'', ''{}'')]))
   \<and> \<not> returns (run demo_lib (Archive [(''BOOT_METABLOOMS.py'', ''import sys''), (''boot_manifest.json'', ''[]'')]))"
proof -
  have 1: "extractall [(''BOOT_METABLOOMS.py'', ''import sys''), (''RUNTIME_INDEX.json'', ''{}'')]
             = Inr [(''BOOT_METABLOOMS.py'', File ''import sys''), (''RUNTIME_INDEX.json'', File ''{}'')]"
    by code_simp
  have 2: "extractall [(''BOOT_METABLOOMS.py'', ''import sys''), (''boot_manifest.json'', ''[]'')]
             = Inr [(''BOOT_METABLOOMS.py'', File ''import sys''), (''boot_manifest.json'', File ''[]'')]"
    by code_simp
  have good: "boot_analyzable demo_lib [(''BOOT_METABLOOMS.py'', File ''import sys''), (''RUNTIME_INDEX.json'', File ''{}'')]"
    "index_loadable demo_lib [(''BOOT_METABLOOMS.py'', File ''import sys''), (''RUNTIME_INDEX.json'', File ''{}'')]"
    "manifest_loadable demo_lib [(''BOOT_METABLOOMS.py'', File ''import sys''), (''RUNTIME_INDEX.json'', File ''{}'')]"
    by code_simp+
  have bad: "\<not> manifest_loadable demo_lib [(''BOOT_METABLOOMS.py'', File ''import sys''), (''boot_manifest.json'', File ''[]'')]"
    by code_simp
  from run_returns_iff [OF 1, of demo_lib] run_returns_iff [OF 2, of demo_lib] good bad
  show ?thesis by blast
qed

subsection \<open>Extraction stays inside the workspace\<close>

lemma split_slash_no_separator: "p \<in> set (split_slash s) \<Longrightarrow> CHR ''/'' \<notin> set p"
proof (induction s arbitrary: p)
  case Nil
  then show ?case by simp
next
  case (Cons c s)
  then show ?case
    by (cases "split_slash s") (auto split: if_splits)
qed

lemma arcname_safe: "p \<in> set (arcname filename) \<Longrightarrow> safe_name p"
  by (auto simp: arcname_def safe_name_def dest: split_slash_no_separator)

lemma safe_entries_iff:
  "safe_entries es \<longleftrightarrow> (\<forall>entry \<in> set es. safe_name (fst entry) \<and> safe_node (snd entry))"
  by (induction es) auto

lemma safe_entries_append:
  "safe_entries (es @ [(name, x)]) \<longleftrightarrow> safe_entries es \<and> safe_name name \<and> safe_node x"
  by (auto simp: safe_entries_iff)

lemma set_update_subset: "set (AList.update k v al) \<subseteq> insert (k, v) (set al)"
  by (induction al) auto

lemma safe_entries_update:
  "safe_entries es \<Longrightarrow> safe_name name \<Longrightarrow> safe_node x \<Longrightarrow> safe_entries (AList.update name x es)"
  using set_update_subset [of name x es] by (fastforce simp: safe_entries_iff)

lemma safe_entries_lookup:
  "safe_entries es \<Longrightarrow> map_of es name = Some x \<Longrightarrow> safe_name name \<and> safe_node x"
proof -
  assume "safe_entries es" and "map_of es name = Some x"
  from this(2) have "(name, x) \<in> set es" by (rule map_of_SomeD)
  with \<open>safe_entries es\<close> show ?thesis by (fastforce simp: safe_entries_iff)
qed

lemma write_at_safe:
  "write_at parts new d = Inr d' \<Longrightarrow> \<forall>p \<in> set parts. safe_name p \<Longrightarrow> safe_node new \<Longrightarrow>
     safe_entries d \<Longrightarrow> safe_entries d'"
proof (induction parts new d arbitrary: d' rule: write_at.induct)
  case (1 new d)
  then show ?case by simp
next
  case (2 name new d)
  then show ?case
    by (auto simp: safe_entries_append safe_entries_update
        split: option.splits fsnode.splits)
next
  case (3 name v va new d)
  show ?case
  proof (cases "map_of d name")
    case None
    with 3 show ?thesis
      by (auto simp: safe_entries_append split: sum.splits)
  next
    case (Some x)
    show ?thesis
    proof (cases x)
      case (File old)
      with 3 Some show ?thesis by simp
    next
      case (Dir old)
      with "3.prems" Some obtain sub where sub: "write_at (v # va) new old = Inr sub"
        and d': "d' = AList.update name (Dir sub) d"
        by (auto split: sum.splits)
      from "3.prems" Some Dir have "safe_entries old"
        using safe_entries_lookup by fastforce
      with "3.IH"(2) [OF Some Dir sub] "3.prems" have "safe_entries sub" by simp
      with d' "3.prems" show ?thesis by (simp add: safe_entries_update)
    qed
  qed
qed

lemma extract_member_safe:
  "extract_member members d filename = Inr d' \<Longrightarrow> safe_entries d \<Longrightarrow> safe_entries d'"
  using arcname_safe [of _ filename]
  by (auto simp: extract_member_def Let_def split: if_splits option.splits
      dest!: write_at_safe)

lemma extract_loop_safe:
  "extract_loop members names d = Inr d' \<Longrightarrow> safe_entries d \<Longrightarrow> safe_entries d'"
  by (induction names arbitrary: d) (auto split: sum.splits dest: extract_member_safe)

lemma in_tree_safe: "in_tree d entry \<Longrightarrow> safe_entries d \<Longrightarrow> safe_name (fst entry)"
proof (induction rule: in_tree.induct)
  case (here entry d)
  then show ?case by (simp add: safe_entries_iff)
next
  case (below name sub d entry)
  then show ?case by (fastforce simp: safe_entries_iff)
qed

text \<open>
  C3, as claimed: an archive with an entry whose name would escape the workspace makes
  the loader fail with \<open>BundleCorrupt\<close> before any check runs.  The code has no such
  error and looks at no entry name: the entry \<^verbatim>\<open>../../evil.py\<close> is extracted as
  \<^verbatim>\<open>evil.py\<close> inside the workspace, the checks run, and the report lists the file.
\<close>

theorem traversal_entry_counterexample:
  "extractall [(''../../evil.py'', ''csrg'')] = Inr [(''evil.py'', File ''csrg'')]
   \<and> returns (run demo_lib (Archive [(''../../evil.py'', ''csrg'')]))
   \<and> (case run demo_lib (Archive [(''../../evil.py'', ''csrg'')]) of
         Inl e \<Rightarrow> []
       | Inr report \<Rightarrow> unverifiable report)
       = [[(''component'', PStr ''CSRG gate''),
           (''reason'', PStr ''Files mention CSRG but wiring unclear without execution''),
           (''files'', PList [PStr ''evil.py''])]]"
  by code_simp

text \<open>
  C3, amended: the audit does not reject an entry whose name would escape the
  workspace.  Extraction drops the empty, \<^verbatim>\<open>.\<close> and \<^verbatim>\<open>..\<close> components of every
  member name, so each entry of the extracted tree, at any depth, has a plain name and
  lies inside the workspace, and the checks run on that tree.  The run ends before
  the first check only when the archive cannot be read or extraction itself raises,
  and then with that exception.
\<close>

theorem extraction_stays_inside:
  "run L NotAnArchive = Inl BadZipFile
   \<and> (case extractall members of
         Inl e \<Rightarrow> run L (Archive members) = Inl e
       | Inr d \<Rightarrow> run L (Archive members) = run_checks L d
                   \<and> (\<forall>entry. in_tree d entry \<longrightarrow> safe_name (fst entry)))"
proof (cases "extractall members")
  case (Inl e)
  then show ?thesis by (simp add: run_def)
next
  case (Inr d)
  then have "safe_entries d"
    unfolding extractall_def by (rule extract_loop_safe) simp
  then have "\<forall>entry. in_tree d entry \<longrightarrow> safe_name (fst entry)"
    using in_tree_safe by blast
  with Inr show ?thesis by (simp add: run_def)
qed

theorem extraction_stays_inside_witness:
  "run demo_lib (Archive [(''a/../../b/evil.py'', ''csrg'')])
     = run_checks demo_lib [(''a'', Dir [(''b'', Dir [(''evil.py'', File ''csrg'')])])]
   \<and> safe_name ''evil.py'' \<and> \<not> safe_name ''..''"
proof -
  have x: "extractall [(''a/../../b/evil.py'', ''csrg'')]
             = Inr [(''a'', Dir [(''b'', Dir [(''evil.py'', File ''csrg'')])])]"
    by code_simp
  have t: "in_tree [(''a'', Dir [(''b'', Dir [(''evil.py'', File ''csrg'')])])] (''evil.py'', File ''csrg'')"
    by (rule in_tree.below [of "''a''" "[(''b'', Dir [(''evil.py'', File ''csrg'')])]"], simp,
        rule in_tree.below [of "''b''" "[(''evil.py'', File ''csrg'')]"], simp,
        rule in_tree.here, simp)
  have n: "\<not> safe_name ''..''"
    by code_simp
  from extraction_stays_inside [of demo_lib "[(''a/../../b/evil.py'', ''csrg'')]"] x t n
  show ?thesis by auto
qed

end
